theory Spec2Isabelle
  imports
    Complex_Main
    "HOL-Library.Char_ord"
    "HOL-Library.List_Lexorder"
    "HOL-Library.Sublist"
begin

section \<open>The flower classification notebook\<close>

text \<open>
  The repository is one notebook, \<^verbatim>\<open>guide.ipynb\<close>, whose code cells run top to bottom.
  Each code cell is embedded as a function from the notebook's state (its global
  variables, the Keras layer objects it has created, what it has printed) to either the
  exception that ends the cell (\<open>Inl\<close>) or the state it leaves (\<open>Inr\<close>). Whatever the
  cells obtain from outside the notebook (the file system, the Keras library) is a field
  of the record \<open>library\<close>, and every such field that can raise returns a sum.
\<close>

subsection \<open>Exceptions\<close>

datatype exn =
    IndexError
  | ValueError
  | KeyError
  | NameError
  | RuntimeError
  | FileNotFoundError
  | ResourceExhaustedError
  | UnidentifiedImageError

text \<open>A global variable of the notebook is unbound (\<open>None\<close>) until a cell assigns it;
  reading an unbound name raises \<open>NameError\<close>.\<close>

definition name :: "'a option \<Rightarrow> exn + 'a" where
  "name v = (case v of None \<Rightarrow> Inl NameError | Some x \<Rightarrow> Inr x)"

subsection \<open>Python lists\<close>

text \<open>\<^verbatim>\<open>xs[i] = v\<close> and \<^verbatim>\<open>xs[i]\<close>: a negative index counts from the end, an index
  outside \<open>-len \<le> i < len\<close> raises \<open>IndexError\<close>.\<close>

definition py_index :: "nat \<Rightarrow> int \<Rightarrow> exn + nat" where
  "py_index len i =
     (if 0 \<le> i \<and> i < int len then Inr (nat i)
      else if i < 0 \<and> - int len \<le> i then Inr (nat (int len + i))
      else Inl IndexError)"

definition list_setitem :: "'a list \<Rightarrow> int \<Rightarrow> 'a \<Rightarrow> exn + 'a list" where
  "list_setitem xs i v =
     (case py_index (length xs) i of Inl e \<Rightarrow> Inl e | Inr j \<Rightarrow> Inr (xs[j := v]))"

definition list_getitem :: "'a list \<Rightarrow> int \<Rightarrow> exn + 'a" where
  "list_getitem xs i =
     (case py_index (length xs) i of Inl e \<Rightarrow> Inl e | Inr j \<Rightarrow> Inr (xs ! j))"

text \<open>A dictionary keeps its keys in insertion order; assigning to a key that is present
  replaces the value where the key stands. \<^verbatim>\<open>dict(pairs)\<close> inserts the pairs one after
  the other, and \<^verbatim>\<open>d[k]\<close> of an absent key raises \<open>KeyError\<close>.\<close>

definition dict_setitem :: "('k \<times> 'v) list \<Rightarrow> 'k \<Rightarrow> 'v \<Rightarrow> ('k \<times> 'v) list" where
  "dict_setitem d k v =
     (if k \<in> fst ` set d then map (\<lambda>(k', v'). if k' = k then (k', v) else (k', v')) d
      else d @ [(k, v)])"

definition dict :: "('k \<times> 'v) list \<Rightarrow> ('k \<times> 'v) list" where
  "dict pairs = foldl (\<lambda>d (k, v). dict_setitem d k v) [] pairs"

definition dict_getitem :: "('k \<times> 'v) list \<Rightarrow> 'k \<Rightarrow> exn + 'v" where
  "dict_getitem d k = (case map_of d k of None \<Rightarrow> Inl KeyError | Some v \<Rightarrow> Inr v)"

subsection \<open>Keras objects\<close>

datatype activation = Relu | Softmax

datatype layer_kind =
    InputLayer
  | Conv2D
  | MaxPooling2D
  | Flatten
  | GlobalMaxPooling2D
  | Dense nat activation
  | Dropout real

type_synonym addr = nat

text \<open>A layer object: what it computes, its \<^verbatim>\<open>trainable\<close> attribute and its weights.
  Layer objects live in a heap (a list indexed by address), since the notebook reaches
  the same layer through several names (\<^verbatim>\<open>pretrained.layers\<close>, the tensors, the
  models built on them).\<close>

record 'w layer =
  kind :: layer_kind
  trainable :: bool
  weights :: 'w

text \<open>A symbolic tensor is known by the layers that lead to it, the input layer first
  and the layer that produced it last. A model is the list of its layers and whether
  \<^verbatim>\<open>compile\<close> has been called on it.\<close>

type_synonym tensor = "addr list"

record keras_model =
  layers :: "addr list"
  compiled :: bool

text \<open>\<^verbatim>\<open>ImageDataGenerator(preprocessing_function=..., horizontal_flip=...)\<close>, recording
  which of the two options were given, and the iterator that \<^verbatim>\<open>flow_from_directory\<close>
  returns. An image is its pixel values.\<close>

record image_data_generator =
  preprocessing_function :: bool
  horizontal_flip :: bool

record iterator =
  directory :: string
  target_size :: "nat \<times> nat"
  batch_size :: nat
  shuffle :: bool
  class_indices :: "(string \<times> int) list"
  image_data_generator :: image_data_generator

type_synonym image = "real list"

subsection \<open>What the notebook takes from outside\<close>

record 'w library =
  isdir :: "string \<Rightarrow> bool"
    \<comment> \<open>\<^verbatim>\<open>os.path.isdir\<close>\<close>
  listdir :: "string \<Rightarrow> exn + string list"
    \<comment> \<open>the subdirectories \<^verbatim>\<open>flow_from_directory\<close> finds in a directory, in the
       order the file system lists them, or the exception the scan raises\<close>
  serve :: "iterator \<Rightarrow> nat \<Rightarrow> exn + (image \<times> string) list \<times> nat"
    \<comment> \<open>the samples of the next batch of an iterator at a state of the random number
       generator, each with the subdirectory it was loaded from, and the state the
       generator is left in, or the exception loading raises\<close>
  application :: "bool \<Rightarrow> string option \<Rightarrow> exn + (layer_kind \<times> 'w) list"
    \<comment> \<open>the layers of VGG19 after its input layer with their ImageNet weights, for the
       given \<^verbatim>\<open>include_top\<close> and \<^verbatim>\<open>pooling\<close>, or the exception loading raises\<close>
  initializer :: "addr \<Rightarrow> layer_kind \<Rightarrow> 'w"
    \<comment> \<open>the initial weights of a newly constructed layer\<close>
  optimizer :: "'w layer list \<Rightarrow> keras_model \<Rightarrow> iterator \<Rightarrow> iterator \<Rightarrow> nat
      \<Rightarrow> exn + (addr \<Rightarrow> 'w) \<times> nat"
    \<comment> \<open>one epoch of training: the weights the optimizer ends with, layer by layer,
       and the state the random number generator is left in, or the exception
       training raises\<close>

subsection \<open>The notebook's state\<close>

text \<open>The global variables that one cell assigns and another reads, the heap of layer
  objects, the state of numpy's random number generator, the printed lines and the
  titles of the last figure. Names that only the assigning cell reads (\<^verbatim>\<open>indices\<close>,
  \<^verbatim>\<open>hidden\<close>, \<^verbatim>\<open>dropout\<close>, \<^verbatim>\<open>batch_size\<close>, the training and validation generators
  and iterators) are local to the cell's definition. The images that matplotlib draws and
  the tables that \<^verbatim>\<open>model.summary()\<close> prints are not kept.\<close>

record 'w notebook =
  stdout :: "string list"
  rng :: nat
  heap :: "'w layer list"
  generator :: "image_data_generator option"
  batches :: "iterator option"
  labels :: "string option list option"
  titles :: "string option list"
  model :: "keras_model option"
  pretrained :: "keras_model option"
  inputs :: "tensor option"
  outputs :: "tensor option"
  preds :: "tensor option"

definition fresh :: "'w notebook" where
  "fresh = \<lparr> stdout = [], rng = 0, heap = [], generator = None, batches = None,
     labels = None, titles = [], model = None, pretrained = None,
     inputs = None, outputs = None, preds = None \<rparr>"

text \<open>Cells run one after the other; the first exception ends the run.\<close>

fun run :: "('s \<Rightarrow> exn + 's) list \<Rightarrow> 's \<Rightarrow> exn + 's" where
  "run [] st = Inr st"
| "run (c # cs) st = (case c st of Inl e \<Rightarrow> Inl e | Inr st' \<Rightarrow> run cs st')"

subsection \<open>The dataset existence check\<close>

text \<open>\<^verbatim>\<open>os.path.join\<close> of two components, and \<^verbatim>\<open>'{}'.format\<close> of a boolean.\<close>

definition path_join :: "string \<Rightarrow> string \<Rightarrow> string" where
  "path_join a b =
     (if b \<noteq> [] \<and> hd b = CHR ''/'' then b
      else if a = [] \<or> last a = CHR ''/'' then a @ b
      else a @ ''/'' @ b)"

definition format_bool :: "bool \<Rightarrow> string" where
  "format_bool b = (if b then ''True'' else ''False'')"

definition print :: "string \<Rightarrow> 'w notebook \<Rightarrow> 'w notebook" where
  "print s st = st\<lparr>stdout := stdout st @ [s]\<rparr>"

definition cell_exists :: "'w library \<Rightarrow> 'w notebook \<Rightarrow> exn + 'w notebook" where
  "cell_exists lib st =
     Inr (print (''Validation dir exists: '' @ format_bool (isdir lib (path_join ''flowers'' ''val'')))
         (print (''Train dir exists: '' @ format_bool (isdir lib (path_join ''flowers'' ''train'')))
         (print (''Root dir exists: '' @ format_bool (isdir lib ''flowers'')) st)))"

subsection \<open>Step 1: serving images\<close>

text \<open>Modelled from the spec: \<^verbatim>\<open>flow_from_directory\<close> belongs to Keras, and the spec
  gives its label encoding as "one-hot encode the label using a label\<rightarrow>index mapping
  derived from alphabetical directory ordering": the subdirectories are sorted, numbered
  from 0, and a sample's label has a single 1, at the number of its subdirectory, among
  as many entries as there are subdirectories. Defaults of the call: target size
  256 by 256, batch size 32, shuffling on.\<close>

definition flow_from_directory ::
  "'w library \<Rightarrow> image_data_generator \<Rightarrow> string \<Rightarrow> nat \<times> nat \<Rightarrow> nat \<Rightarrow> bool \<Rightarrow> exn + iterator"
where
  "flow_from_directory lib gen dir sz n shuf =
     (case listdir lib dir of
        Inl e \<Rightarrow> Inl e
      | Inr subdirs \<Rightarrow>
          Inr \<lparr> directory = dir, target_size = sz, batch_size = n, shuffle = shuf,
                class_indices = dict (zip (sort subdirs) (map int [0..<length subdirs])),
                image_data_generator = gen \<rparr>)"

definition one_hot :: "nat \<Rightarrow> nat \<Rightarrow> real list" where
  "one_hot n k = (replicate n 0)[k := 1]"

fun encode :: "iterator \<Rightarrow> (image \<times> string) list \<Rightarrow> exn + (image \<times> real list) list" where
  "encode it [] = Inr []"
| "encode it ((x, c) # rest) =
     (case dict_getitem (class_indices it) c of
        Inl e \<Rightarrow> Inl e
      | Inr k \<Rightarrow>
          (case encode it rest of
             Inl e \<Rightarrow> Inl e
           | Inr b \<Rightarrow> Inr ((x, one_hot (length (class_indices it)) (nat k)) # b)))"

text \<open>The first batch of an iterator, as \<^verbatim>\<open>for X, y in batches: ... break\<close> takes it.\<close>

definition first_batch ::
  "'w library \<Rightarrow> iterator \<Rightarrow> nat \<Rightarrow> exn + (image \<times> real list) list \<times> nat"
where
  "first_batch lib it r =
     (case serve lib it r of
        Inl e \<Rightarrow> Inl e
      | Inr (samples, r') \<Rightarrow>
          (case encode it samples of Inl e \<Rightarrow> Inl e | Inr b \<Rightarrow> Inr (b, r')))"

definition cell_generator :: "'w library \<Rightarrow> 'w notebook \<Rightarrow> exn + 'w notebook" where
  "cell_generator lib st =
     (let gen = \<lparr> preprocessing_function = False, horizontal_flip = False \<rparr>
      in case flow_from_directory lib gen ''flowers/train'' (256, 256) 4 True of
           Inl e \<Rightarrow> Inl e
         | Inr it \<Rightarrow> Inr (st\<lparr>generator := Some gen, batches := Some it\<rparr>))"

text \<open>The decoding loop, \<^verbatim>\<open>for key in indices: labels[indices[key]] = key\<close>.\<close>

fun decode_loop ::
  "string list \<Rightarrow> (string \<times> int) list \<Rightarrow> string option list \<Rightarrow> exn + string option list"
where
  "decode_loop [] ind ls = Inr ls"
| "decode_loop (key # keys) ind ls =
     (case dict_getitem ind key of
        Inl e \<Rightarrow> Inl e
      | Inr i \<Rightarrow>
          (case list_setitem ls i (Some key) of
             Inl e \<Rightarrow> Inl e
           | Inr ls' \<Rightarrow> decode_loop keys ind ls'))"

definition decode_labels :: "(string \<times> int) list \<Rightarrow> exn + string option list" where
  "decode_labels ind = decode_loop (map fst ind) ind (replicate 17 None)"

definition cell_labels :: "'w notebook \<Rightarrow> exn + 'w notebook" where
  "cell_labels st =
     (case name (batches st) of
        Inl e \<Rightarrow> Inl e
      | Inr it \<Rightarrow>
          (case decode_labels (class_indices it) of
             Inl e \<Rightarrow> Inl e
           | Inr ls \<Rightarrow> Inr (st\<lparr>labels := Some ls\<rparr>)))"

text \<open>\<^verbatim>\<open>np.argmax\<close>: the position of the first greatest entry; an empty array raises.\<close>

fun argmax_from :: "real list \<Rightarrow> nat \<Rightarrow> real \<Rightarrow> nat \<Rightarrow> nat" where
  "argmax_from [] i best pos = pos"
| "argmax_from (y # ys) i best pos =
     (if best < y then argmax_from ys (Suc i) y i else argmax_from ys (Suc i) best pos)"

definition argmax :: "real list \<Rightarrow> exn + nat" where
  "argmax ys = (case ys of [] \<Rightarrow> Inl ValueError | y # rest \<Rightarrow> Inr (argmax_from rest 1 y 0))"

text \<open>\<^verbatim>\<open>labels[np.argmax(y)]\<close>, the lookup every sanity check makes.\<close>

definition decode_label :: "string option list \<Rightarrow> real list \<Rightarrow> exn + string option" where
  "decode_label ls y = (case argmax y of Inl e \<Rightarrow> Inl e | Inr k \<Rightarrow> list_getitem ls (int k))"

text \<open>The loop over the samples of the first batch, which draws sample \<open>i\<close> on
  \<^verbatim>\<open>ax[i]\<close>, one of the four axes of the figure, under its decoded label; the result is
  the titles drawn, in order.\<close>

fun show_samples ::
  "string option list option \<Rightarrow> (image \<times> real list) list \<Rightarrow> nat \<Rightarrow> exn + string option list"
where
  "show_samples var [] i = Inr []"
| "show_samples var ((x, y) # rest) i =
     (case name var of
        Inl e \<Rightarrow> Inl e
      | Inr ls \<Rightarrow>
          (case decode_label ls y of
             Inl e \<Rightarrow> Inl e
           | Inr label \<Rightarrow>
               (case py_index 4 (int i) of
                  Inl e \<Rightarrow> Inl e
                | Inr j \<Rightarrow>
                    (case show_samples var rest (Suc i) of
                       Inl e \<Rightarrow> Inl e
                     | Inr drawn \<Rightarrow> Inr (label # drawn)))))"

definition cell_show_batch :: "'w library \<Rightarrow> 'w notebook \<Rightarrow> exn + 'w notebook" where
  "cell_show_batch lib st =
     (case name (batches st) of
        Inl e \<Rightarrow> Inl e
      | Inr it \<Rightarrow>
          (case first_batch lib it (rng st) of
             Inl e \<Rightarrow> Inl e
           | Inr (b, r') \<Rightarrow>
               (case show_samples (labels st) b 0 of
                  Inl e \<Rightarrow> Inl e
                | Inr drawn \<Rightarrow> Inr (st\<lparr>rng := r', titles := drawn\<rparr>))))"

subsection \<open>Steps 2 and 3: the base model and its sanity check\<close>

text \<open>\<^verbatim>\<open>VGG19(weights='imagenet', include_top=..., pooling=...)\<close> constructs an input layer
  and the layers of the application behind it, as new objects. A newly constructed layer
  has \<^verbatim>\<open>trainable\<close> set, the default of Keras.\<close>

definition new_layer :: "layer_kind \<Rightarrow> 'w \<Rightarrow> 'w layer" where
  "new_layer k w = \<lparr> kind = k, trainable = True, weights = w \<rparr>"

definition VGG19 ::
  "'w library \<Rightarrow> bool \<Rightarrow> string option \<Rightarrow> 'w layer list \<Rightarrow> exn + keras_model \<times> 'w layer list"
where
  "VGG19 lib include_top pooling h =
     (case application lib include_top pooling of
        Inl e \<Rightarrow> Inl e
      | Inr ls \<Rightarrow>
          Inr (\<lparr> layers = [length h..<Suc (length h + length ls)], compiled = False \<rparr>,
               h @ new_layer InputLayer (initializer lib (length h) InputLayer)
                 # map (\<lambda>(k, w). new_layer k w) ls))"

definition cell_base_model :: "'w library \<Rightarrow> 'w notebook \<Rightarrow> exn + 'w notebook" where
  "cell_base_model lib st =
     (case VGG19 lib True None (heap st) of
        Inl e \<Rightarrow> Inl e
      | Inr (m, h) \<Rightarrow> Inr (st\<lparr>heap := h, model := Some m\<rparr>))"

definition cell_generator_224 :: "'w library \<Rightarrow> 'w notebook \<Rightarrow> exn + 'w notebook" where
  "cell_generator_224 lib st =
     (let gen = \<lparr> preprocessing_function = False, horizontal_flip = False \<rparr>
      in case flow_from_directory lib gen ''flowers/train'' (224, 224) 1 True of
           Inl e \<Rightarrow> Inl e
         | Inr it \<Rightarrow> Inr (st\<lparr>rng := 1234, generator := Some gen, batches := Some it\<rparr>))"

definition cell_generator_preprocessed :: "'w library \<Rightarrow> 'w notebook \<Rightarrow> exn + 'w notebook" where
  "cell_generator_preprocessed lib st =
     (let gen = \<lparr> preprocessing_function = True, horizontal_flip = False \<rparr>
      in case flow_from_directory lib gen ''flowers/train'' (224, 224) 1 True of
           Inl e \<Rightarrow> Inl e
         | Inr it \<Rightarrow> Inr (st\<lparr>rng := 1234, generator := Some gen, batches := Some it\<rparr>))"

text \<open>The sanity check predicts on the first batch, decodes the label of its first
  sample and draws both in the title of one figure; of the two, the state keeps the
  decoded label. What the layers compute in floating point is not part of the
  embedding.\<close>

definition cell_sanity_check :: "'w library \<Rightarrow> 'w notebook \<Rightarrow> exn + 'w notebook" where
  "cell_sanity_check lib st =
     (case name (batches st) of
        Inl e \<Rightarrow> Inl e
      | Inr it \<Rightarrow>
          (case first_batch lib it (rng st) of
             Inl e \<Rightarrow> Inl e
           | Inr (b, r') \<Rightarrow>
               (case name (model st) of
                  Inl e \<Rightarrow> Inl e
                | Inr m \<Rightarrow>
                    (case list_getitem b 0 of
                       Inl e \<Rightarrow> Inl e
                     | Inr (x, y) \<Rightarrow>
                         (case name (labels st) of
                            Inl e \<Rightarrow> Inl e
                          | Inr ls \<Rightarrow>
                              (case decode_label ls y of
                                 Inl e \<Rightarrow> Inl e
                               | Inr label \<Rightarrow>
                                   Inr (st\<lparr>rng := r', titles := [label]\<rparr>)))))))"

subsection \<open>Step 4: the flower classification model\<close>

definition cell_pretrained :: "'w library \<Rightarrow> 'w notebook \<Rightarrow> exn + 'w notebook" where
  "cell_pretrained lib st =
     (case VGG19 lib False (Some ''max'') (heap st) of
        Inl e \<Rightarrow> Inl e
      | Inr (m, h) \<Rightarrow>
          Inr (st\<lparr>heap := h, pretrained := Some m,
                   inputs := Some (take 1 (layers m)), outputs := Some (layers m)\<rparr>))"

text \<open>\<^verbatim>\<open>for layer in pretrained.layers: layer.trainable = False\<close>\<close>

fun freeze_loop :: "addr list \<Rightarrow> 'w layer list \<Rightarrow> 'w layer list" where
  "freeze_loop [] h = h"
| "freeze_loop (a # rest) h = freeze_loop rest (h[a := (h ! a)\<lparr>trainable := False\<rparr>])"

definition cell_freeze :: "'w notebook \<Rightarrow> exn + 'w notebook" where
  "cell_freeze st =
     (case name (pretrained st) of
        Inl e \<Rightarrow> Inl e
      | Inr m \<Rightarrow> Inr (st\<lparr>heap := freeze_loop (layers m) (heap st)\<rparr>))"

text \<open>Calling a newly constructed layer on a tensor, as in
  \<^verbatim>\<open>Dense(128, activation='relu')(outputs)\<close>: the layer is a new object with initial
  weights, and the result is the tensor it produces.\<close>

definition call_new :: "'w library \<Rightarrow> layer_kind \<Rightarrow> tensor \<Rightarrow> 'w layer list \<Rightarrow> tensor \<times> 'w layer list" where
  "call_new lib k x h = (x @ [length h], h @ [new_layer k (initializer lib (length h) k)])"

definition cell_head :: "'w library \<Rightarrow> 'w notebook \<Rightarrow> exn + 'w notebook" where
  "cell_head lib st =
     (case name (outputs st) of
        Inl e \<Rightarrow> Inl e
      | Inr out \<Rightarrow>
          (let (hidden, h1) = call_new lib (Dense 128 Relu) out (heap st);
               (p, h2) = call_new lib (Dense 17 Softmax) hidden h1
           in Inr (st\<lparr>heap := h2, preds := Some p\<rparr>)))"

text \<open>\<^verbatim>\<open>Model(inputs, preds)\<close> takes the layers from the input to the output tensor and
  raises when the output does not descend from the input; \<^verbatim>\<open>compile\<close> makes the
  model ready for training.\<close>

definition Model :: "tensor \<Rightarrow> tensor \<Rightarrow> exn + keras_model" where
  "Model i out =
     (if i \<noteq> [] \<and> prefix i out then Inr \<lparr> layers = drop (length i - 1) out, compiled = False \<rparr>
      else Inl ValueError)"

definition compile :: "keras_model \<Rightarrow> keras_model" where
  "compile m = m\<lparr>compiled := True\<rparr>"

definition cell_model :: "'w notebook \<Rightarrow> exn + 'w notebook" where
  "cell_model st =
     (case name (inputs st) of
        Inl e \<Rightarrow> Inl e
      | Inr i \<Rightarrow>
          (case name (preds st) of
             Inl e \<Rightarrow> Inl e
           | Inr p \<Rightarrow>
               (case Model i p of
                  Inl e \<Rightarrow> Inl e
                | Inr m \<Rightarrow> Inr (st\<lparr>model := Some (compile m)\<rparr>))))"

text \<open>Modelled from the spec: \<^verbatim>\<open>fit\<close> belongs to Keras. The spec's glossary gives what
  it does to a frozen layer ("a layer whose weights are excluded from gradient updates
  during training"): the weights the optimizer ends with replace those of the model's
  layers that have \<^verbatim>\<open>trainable\<close> set, and no others. A model that was not compiled
  cannot be fitted.\<close>

definition fit ::
  "'w library \<Rightarrow> keras_model \<Rightarrow> iterator \<Rightarrow> iterator \<Rightarrow> nat \<Rightarrow> 'w layer list
     \<Rightarrow> exn + 'w layer list \<times> nat"
where
  "fit lib m train val r h =
     (if \<not> compiled m then Inl RuntimeError
      else case optimizer lib h m train val r of
             Inl e \<Rightarrow> Inl e
           | Inr (new, r') \<Rightarrow>
               Inr (map (\<lambda>a. if a \<in> set (layers m) \<and> trainable (h ! a)
                              then (h ! a)\<lparr>weights := new a\<rparr> else h ! a)
                      [0..<length h], r'))"

text \<open>The training cell, the same code in steps 4 and 5: it seeds numpy's generator with
  1234, sets \<^verbatim>\<open>batch_size = 32\<close>, makes the training and the validation iterator with
  the preprocessing function, and calls \<^verbatim>\<open>model.fit\<close> once, for one epoch.\<close>

definition cell_train :: "'w library \<Rightarrow> 'w notebook \<Rightarrow> exn + 'w notebook" where
  "cell_train lib st =
     (let gen = \<lparr> preprocessing_function = True, horizontal_flip = False \<rparr>
      in case flow_from_directory lib gen ''flowers/train'' (224, 224) 32 True of
           Inl e \<Rightarrow> Inl e
         | Inr train \<Rightarrow>
             (case flow_from_directory lib gen ''flowers/val'' (224, 224) 32 True of
                Inl e \<Rightarrow> Inl e
              | Inr val \<Rightarrow>
                  (case name (model st) of
                     Inl e \<Rightarrow> Inl e
                   | Inr m \<Rightarrow>
                       (case fit lib m train val 1234 (heap st) of
                          Inl e \<Rightarrow> Inl e
                        | Inr (h, r') \<Rightarrow> Inr (st\<lparr>rng := r', heap := h\<rparr>)))))"

subsection \<open>Step 5: regularization\<close>

definition cell_head_dropout :: "'w library \<Rightarrow> 'w notebook \<Rightarrow> exn + 'w notebook" where
  "cell_head_dropout lib st =
     (case name (outputs st) of
        Inl e \<Rightarrow> Inl e
      | Inr out \<Rightarrow>
          (let (hidden, h1) = call_new lib (Dense 128 Relu) out (heap st);
               (dropout, h2) = call_new lib (Dropout (3 / 10)) hidden h1;
               (p, h3) = call_new lib (Dense 17 Softmax) dropout h2
           in case name (inputs st) of
                Inl e \<Rightarrow> Inl e
              | Inr i \<Rightarrow>
                  (case Model i p of
                     Inl e \<Rightarrow> Inl e
                   | Inr m \<Rightarrow> Inr (st\<lparr>heap := h3, preds := Some p, model := Some (compile m)\<rparr>))))"

subsection \<open>Step 6: augmentations\<close>

definition cell_generator_flip :: "'w library \<Rightarrow> 'w notebook \<Rightarrow> exn + 'w notebook" where
  "cell_generator_flip lib st =
     (let gen = \<lparr> preprocessing_function = False, horizontal_flip = True \<rparr>
      in case flow_from_directory lib gen ''flowers/train'' (256, 256) 1 False of
           Inl e \<Rightarrow> Inl e
         | Inr it \<Rightarrow> Inr (st\<lparr>rng := 1234, generator := Some gen, batches := Some it\<rparr>))"

text \<open>Five times over, a new iterator is made from \<^verbatim>\<open>generator\<close> and the first sample
  of its first batch is drawn on \<^verbatim>\<open>ax[i]\<close>, one of five axes, under the title
  \<^verbatim>\<open>Run i+1\<close>; \<open>k\<close> counts the runs still to do.\<close>

fun format_nat :: "nat \<Rightarrow> string" where
  "format_nat n =
     (if n < 10 then [char_of (48 + n)] else format_nat (n div 10) @ [char_of (48 + n mod 10)])"

declare format_nat.simps [simp del]

fun show_runs ::
  "'w library \<Rightarrow> image_data_generator \<Rightarrow> nat \<Rightarrow> nat \<Rightarrow> 'w notebook \<Rightarrow> exn + 'w notebook"
where
  "show_runs lib gen i 0 st = Inr st"
| "show_runs lib gen i (Suc k) st =
     (case flow_from_directory lib gen ''flowers/train'' (256, 256) 1 False of
        Inl e \<Rightarrow> Inl e
      | Inr it \<Rightarrow>
          (case first_batch lib it (rng st) of
             Inl e \<Rightarrow> Inl e
           | Inr (b, r') \<Rightarrow>
               (case py_index 5 (int i) of
                  Inl e \<Rightarrow> Inl e
                | Inr j \<Rightarrow>
                    (case list_getitem b 0 of
                       Inl e \<Rightarrow> Inl e
                     | Inr (x, y) \<Rightarrow>
                         show_runs lib gen (Suc i) k
                           (st\<lparr>rng := r', batches := Some it,
                               titles := titles st @ [Some (''Run '' @ format_nat (i + 1))]\<rparr>)))))"

definition cell_show_flips :: "'w library \<Rightarrow> 'w notebook \<Rightarrow> exn + 'w notebook" where
  "cell_show_flips lib st =
     (case name (generator st) of
        Inl e \<Rightarrow> Inl e
      | Inr gen \<Rightarrow> show_runs lib gen 0 5 (st\<lparr>titles := []\<rparr>))"

subsection \<open>The notebook\<close>

definition step_1 :: "'w library \<Rightarrow> ('w notebook \<Rightarrow> exn + 'w notebook) list" where
  "step_1 lib = [cell_exists lib, cell_generator lib, cell_labels, cell_show_batch lib]"

definition step_2 :: "'w library \<Rightarrow> ('w notebook \<Rightarrow> exn + 'w notebook) list" where
  "step_2 lib = [cell_base_model lib, cell_generator_224 lib, cell_sanity_check lib]"

definition step_3 :: "'w library \<Rightarrow> ('w notebook \<Rightarrow> exn + 'w notebook) list" where
  "step_3 lib = [cell_generator_preprocessed lib, cell_sanity_check lib]"

definition step_4 :: "'w library \<Rightarrow> ('w notebook \<Rightarrow> exn + 'w notebook) list" where
  "step_4 lib = [cell_pretrained lib, cell_freeze, cell_head lib, cell_model, cell_train lib]"

definition step_5 :: "'w library \<Rightarrow> ('w notebook \<Rightarrow> exn + 'w notebook) list" where
  "step_5 lib = [cell_head_dropout lib, cell_train lib]"

definition step_6 :: "'w library \<Rightarrow> ('w notebook \<Rightarrow> exn + 'w notebook) list" where
  "step_6 lib = [cell_generator_flip lib, cell_show_flips lib]"

definition notebook :: "'w library \<Rightarrow> exn + 'w notebook" where
  "notebook lib =
     run (step_1 lib @ step_2 lib @ step_3 lib @ step_4 lib @ step_5 lib @ step_6 lib) fresh"

subsection \<open>Notions for the statements\<close>

text \<open>The list \<^verbatim>\<open>labels\<close> after the decoding loop has gone through the first \<open>j\<close>
  of the class names.\<close>

definition filled :: "string list \<Rightarrow> nat \<Rightarrow> string option list" where
  "filled names j = map Some (take j names) @ replicate (17 - j) None"

text \<open>The heap once \<^verbatim>\<open>pretrained\<close> has been constructed on the heap \<open>h\<close> from the
  layers \<open>ls\<close> of the application and its layers have been frozen.\<close>

definition built :: "'w library \<Rightarrow> 'w layer list \<Rightarrow> (layer_kind \<times> 'w) list \<Rightarrow> 'w layer list" where
  "built lib h ls =
     freeze_loop [length h..<Suc (length h + length ls)]
       (h @ new_layer InputLayer (initializer lib (length h) InputLayer)
          # map (\<lambda>(k, w). new_layer k w) ls)"

text \<open>An environment to run the notebook in: the dataset with its 17 class
  subdirectories as a file system may list them, a small network in place of VGG19, and
  natural numbers for weights, which training replaces by 7.\<close>

definition flower_names :: "string list" where
  "flower_names =
     [''tulip'', ''daisy'', ''iris'', ''bluebell'', ''buttercup'', ''coltsfoot'', ''cowslip'',
      ''crocus'', ''daffodil'', ''dandelion'', ''fritillary'', ''lilyvalley'', ''pansy'',
      ''snowdrop'', ''sunflower'', ''tigerlily'', ''windflower'']"

definition example_library :: "nat library" where
  "example_library = \<lparr>
     isdir = (\<lambda>p. p \<in> set [''flowers'', ''flowers/train'', ''flowers/val'']),
     listdir = (\<lambda>d. if d = ''flowers/train'' \<or> d = ''flowers/val'' then Inr flower_names
                     else Inl FileNotFoundError),
     serve = (\<lambda>it r. Inr (map (\<lambda>c. ([0], c)) (take (batch_size it) flower_names), Suc r)),
     application = (\<lambda>include_top pooling. Inr ((Conv2D, 1) # (MaxPooling2D, 0) #
        (if include_top then [(Flatten, 0), (Dense 1000 Softmax, 2)]
         else if pooling = Some ''max'' then [(GlobalMaxPooling2D, 0)] else []))),
     initializer = (\<lambda>a k. 0),
     optimizer = (\<lambda>h m train val r. Inr (\<lambda>a. 7, Suc r)) \<rparr>"

definition example_batches :: iterator where
  "example_batches = \<lparr> directory = ''flowers/train'', target_size = (256, 256),
     batch_size = 4, shuffle = True,
     class_indices = zip (sort flower_names) (map int [0..<17]),
     image_data_generator = \<lparr> preprocessing_function = False, horizontal_flip = False \<rparr> \<rparr>"

text \<open>The same with two class subdirectories only.\<close>

definition two_flowers :: "nat library" where
  "two_flowers = example_library \<lparr>
     listdir := (\<lambda>d. Inr [''rose'', ''daisy'']),
     serve := (\<lambda>it r. Inr ([([0], ''rose''), ([0], ''daisy'')], Suc r)) \<rparr>"

definition two_batches :: iterator where
  "two_batches = example_batches \<lparr> class_indices := [(''daisy'', 0), (''rose'', 1)] \<rparr>"

text \<open>The states this environment leaves: before the first sanity check (run from
  the base model on), after the cells that build the model of step 4, after its training,
  and after the cell that builds the model of step 5.\<close>

definition example_at_check :: "nat notebook" where
  "example_at_check = fresh \<lparr>
     rng := 1234,
     heap := [\<lparr> kind = InputLayer, trainable = True, weights = 0 \<rparr>,
              \<lparr> kind = Conv2D, trainable = True, weights = 1 \<rparr>,
              \<lparr> kind = MaxPooling2D, trainable = True, weights = 0 \<rparr>,
              \<lparr> kind = Flatten, trainable = True, weights = 0 \<rparr>,
              \<lparr> kind = Dense 1000 Softmax, trainable = True, weights = 2 \<rparr>],
     generator := Some \<lparr> preprocessing_function = False, horizontal_flip = False \<rparr>,
     batches := Some (example_batches \<lparr> target_size := (224, 224), batch_size := 1 \<rparr>),
     model := Some \<lparr> layers = [0, 1, 2, 3, 4], compiled = False \<rparr> \<rparr>"

definition example_built :: "nat notebook" where
  "example_built = fresh \<lparr>
     heap := [\<lparr> kind = InputLayer, trainable = False, weights = 0 \<rparr>,
              \<lparr> kind = Conv2D, trainable = False, weights = 1 \<rparr>,
              \<lparr> kind = MaxPooling2D, trainable = False, weights = 0 \<rparr>,
              \<lparr> kind = GlobalMaxPooling2D, trainable = False, weights = 0 \<rparr>,
              \<lparr> kind = Dense 128 Relu, trainable = True, weights = 0 \<rparr>,
              \<lparr> kind = Dense 17 Softmax, trainable = True, weights = 0 \<rparr>],
     model := Some \<lparr> layers = [0, 1, 2, 3, 4, 5], compiled = True \<rparr>,
     pretrained := Some \<lparr> layers = [0, 1, 2, 3], compiled = False \<rparr>,
     inputs := Some [0], outputs := Some [0, 1, 2, 3], preds := Some [0, 1, 2, 3, 4, 5] \<rparr>"

definition example_trained :: "nat notebook" where
  "example_trained = example_built \<lparr>
     rng := 1235,
     heap := [\<lparr> kind = InputLayer, trainable = False, weights = 0 \<rparr>,
              \<lparr> kind = Conv2D, trainable = False, weights = 1 \<rparr>,
              \<lparr> kind = MaxPooling2D, trainable = False, weights = 0 \<rparr>,
              \<lparr> kind = GlobalMaxPooling2D, trainable = False, weights = 0 \<rparr>,
              \<lparr> kind = Dense 128 Relu, trainable = True, weights = 7 \<rparr>,
              \<lparr> kind = Dense 17 Softmax, trainable = True, weights = 7 \<rparr>] \<rparr>"

definition example_dropout :: "nat notebook" where
  "example_dropout = example_trained \<lparr>
     heap := heap example_trained @
             [\<lparr> kind = Dense 128 Relu, trainable = True, weights = 0 \<rparr>,
              \<lparr> kind = Dropout (3 / 10), trainable = True, weights = 0 \<rparr>,
              \<lparr> kind = Dense 17 Softmax, trainable = True, weights = 0 \<rparr>],
     model := Some \<lparr> layers = [0, 1, 2, 3, 6, 7, 8], compiled = True \<rparr>,
     preds := Some [0, 1, 2, 3, 6, 7, 8] \<rparr>"

text \<open>The same environment with an optimizer that runs out of memory on batches of more
  than 16 samples.\<close>

definition oom_library :: "nat library" where
  "oom_library = example_library \<lparr>
     optimizer := (\<lambda>h m train val r.
        if 16 < batch_size train then Inl ResourceExhaustedError else Inr (\<lambda>a. 7, Suc r)) \<rparr>"

section \<open>Properties\<close>

subsection \<open>The dataset existence check\<close>

text \<open>
  C7. The dataset existence check evaluates \<^verbatim>\<open>os.path.isdir\<close> on \<^verbatim>\<open>flowers\<close>,
  \<^verbatim>\<open>flowers/train\<close> and \<^verbatim>\<open>flowers/val\<close>, prints one line with one boolean for each
  of the three, in that order, and never ends in an exception: whatever the three answers
  are, all \<open>False\<close> included, the cell returns normally, changing nothing but the output.
\<close>

theorem cell_exists_reports:
  "cell_exists lib st =
     Inr (st\<lparr>stdout := stdout st @
       [''Root dir exists: '' @ (if isdir lib ''flowers'' then ''True'' else ''False''),
        ''Train dir exists: '' @ (if isdir lib ''flowers/train'' then ''True'' else ''False''),
        ''Validation dir exists: '' @ (if isdir lib ''flowers/val'' then ''True'' else ''False'')]\<rparr>)"
  by (simp add: cell_exists_def print_def path_join_def format_bool_def)

subsection \<open>Class indices and their decoding\<close>

lemma dict_setitem_new: "k \<notin> fst ` set d \<Longrightarrow> dict_setitem d k v = d @ [(k, v)]"
  by (simp add: dict_setitem_def)

lemma foldl_dict_setitem:
  "distinct (map fst (acc @ pairs)) \<Longrightarrow>
   foldl (\<lambda>d (k, v). dict_setitem d k v) acc pairs = acc @ pairs"
proof (induction pairs arbitrary: acc)
  case Nil
  then show ?case by simp
next
  case (Cons p pairs)
  obtain k v where p: "p = (k, v)" by (cases p)
  from Cons.prems have new: "k \<notin> fst ` set acc" by (auto simp: p)
  from Cons.prems have "distinct (map fst ((acc @ [(k, v)]) @ pairs))" by (simp add: p)
  from Cons.IH [OF this] show ?case by (simp add: p dict_setitem_new [OF new])
qed

lemma dict_distinct: "distinct (map fst pairs) \<Longrightarrow> dict pairs = pairs"
  using foldl_dict_setitem [of "[]" pairs] by (simp add: dict_def)

lemma dict_getitem_numbered:
  assumes "distinct names" "i < length names"
  shows "dict_getitem (zip names (map int [0..<length names])) (names ! i) = Inr (int i)"
proof -
  let ?ps = "zip names (map int [0..<length names])"
  have d: "distinct (map fst ?ps)" using assms(1) by simp
  have "?ps ! i = (names ! i, int i)" using assms(2) by simp
  moreover have "i < length ?ps" using assms(2) by simp
  ultimately have "(names ! i, int i) \<in> set ?ps" by (metis nth_mem)
  then have "map_of ?ps (names ! i) = Some (int i)" using d by (rule map_of_is_SomeI [rotated])
  then show ?thesis by (simp add: dict_getitem_def)
qed

lemma list_setitem_nat: "j < length xs \<Longrightarrow> list_setitem xs (int j) v = Inr (xs[j := v])"
  by (simp add: list_setitem_def py_index_def)

lemma list_getitem_nat: "j < length xs \<Longrightarrow> list_getitem xs (int j) = Inr (xs ! j)"
  by (simp add: list_getitem_def py_index_def)

lemma list_setitem_beyond: "length xs \<le> j \<Longrightarrow> list_setitem xs (int j) v = Inl IndexError"
  by (simp add: list_setitem_def py_index_def)

lemma filled_step:
  assumes "j < length names" "j < 17"
  shows "(filled names j)[j := Some (names ! j)] = filled names (Suc j)"
proof -
  have r: "replicate (17 - j) (None :: string option) = None # replicate (17 - Suc j) None"
    using assms(2) by (simp add: Suc_diff_Suc flip: replicate_Suc)
  have l: "length (map Some (take j names)) = j" using assms(1) by simp
  show ?thesis
    unfolding filled_def r using assms(1) l
    by (simp add: take_Suc_conv_app_nth list_update_append)
qed

lemma length_filled: "j \<le> length names \<Longrightarrow> j \<le> 17 \<Longrightarrow> length (filled names j) = 17"
  by (simp add: filled_def)

lemma decode_loop_fills:
  assumes "distinct names" "length names \<le> 17"
  shows "j \<le> length names \<Longrightarrow>
    decode_loop (drop j names) (zip names (map int [0..<length names])) (filled names j)
      = Inr (filled names (length names))"
proof (induction "length names - j" arbitrary: j)
  case 0
  then show ?case by simp
next
  case (Suc d)
  then have j: "j < length names" by simp
  then have j17: "j < 17" using assms(2) by simp
  have dr: "drop j names = names ! j # drop (Suc j) names" using j by (simp add: Cons_nth_drop_Suc)
  have len: "j < length (filled names j)" using j j17 by (simp add: length_filled)
  have "d = length names - Suc j" using Suc.hyps(2) by simp
  from Suc.hyps(1) [OF this] j
  have IH: "decode_loop (drop (Suc j) names) (zip names (map int [0..<length names])) (filled names (Suc j))
      = Inr (filled names (length names))" by simp
  show ?case
    by (simp add: dr dict_getitem_numbered [OF assms(1) j] list_setitem_nat [OF len]
        filled_step [OF j j17] IH)
qed

lemma decode_loop_overflows:
  assumes "distinct names" "17 < length names"
  shows "j \<le> 17 \<Longrightarrow>
    decode_loop (drop j names) (zip names (map int [0..<length names])) (filled names j)
      = Inl IndexError"
proof (induction "17 - j" arbitrary: j)
  case 0
  then have j: "j = 17" by simp
  have jl: "j < length names" using assms(2) j by simp
  have dr: "drop j names = names ! j # drop (Suc j) names" using jl by (simp add: Cons_nth_drop_Suc)
  have "length (filled names j) \<le> j" using j jl by (simp add: filled_def)
  then show ?case
    by (simp add: dr dict_getitem_numbered [OF assms(1) jl] list_setitem_beyond)
next
  case (Suc d)
  then have j17: "j < 17" by simp
  then have j: "j < length names" using assms(2) by simp
  have dr: "drop j names = names ! j # drop (Suc j) names" using j by (simp add: Cons_nth_drop_Suc)
  have len: "j < length (filled names j)" using j j17 by (simp add: length_filled)
  have "d = 17 - Suc j" using Suc.hyps(2) by simp
  from Suc.hyps(1) [OF this] j17
  have IH: "decode_loop (drop (Suc j) names) (zip names (map int [0..<length names])) (filled names (Suc j))
      = Inl IndexError" by simp
  show ?case
    by (simp add: dr dict_getitem_numbered [OF assms(1) j] list_setitem_nat [OF len]
        filled_step [OF j j17] IH)
qed

lemma argmax_from_le: "\<forall>y\<in>set ys. \<not> best < y \<Longrightarrow> argmax_from ys i best pos = pos"
  by (induction ys arbitrary: i) auto

lemma argmax_from_append:
  "\<forall>y\<in>set xs. \<not> best < y \<Longrightarrow>
   argmax_from (xs @ ys) i best pos = argmax_from ys (i + length xs) best pos"
  by (induction xs arbitrary: i) auto

lemma one_hot_split: "k < n \<Longrightarrow> one_hot n k = replicate k 0 @ 1 # replicate (n - Suc k) 0"
proof -
  assume k: "k < n"
  then have "replicate n (0::real) = replicate k 0 @ 0 # replicate (n - Suc k) 0"
    by (metis Suc_diff_Suc add_diff_cancel_left' less_imp_add_positive replicate_Suc replicate_add le_add_diff_inverse less_imp_le_nat)
  then show ?thesis by (simp add: one_hot_def list_update_append)
qed

lemma argmax_one_hot: "k < n \<Longrightarrow> argmax (one_hot n k) = Inr k"
proof (cases k)
  case 0
  assume "k < n"
  then show ?thesis using 0 by (simp add: one_hot_split argmax_def argmax_from_le)
next
  case (Suc k')
  assume "k < n"
  then show ?thesis using Suc
    by (simp add: one_hot_split argmax_def argmax_from_append argmax_from_le)
qed


lemma flow_class_indices:
  assumes "listdir lib dir = Inr subdirs" "distinct subdirs"
    and "flow_from_directory lib gen dir sz n shuf = Inr it"
  shows "class_indices it = zip (sort subdirs) (map int [0..<length (sort subdirs)])"
proof -
  have "distinct (map fst (zip (sort subdirs) (map int [0..<length subdirs])))"
    using assms(2) by simp
  then have "dict (zip (sort subdirs) (map int [0..<length subdirs]))
      = zip (sort subdirs) (map int [0..<length subdirs])"
    by (rule dict_distinct)
  then show ?thesis using assms(1,3) by (auto simp: flow_from_directory_def)
qed

lemma decode_numbered:
  assumes "distinct names"
  shows "decode_labels (zip names (map int [0..<length names]))
    = (if length names \<le> 17 then Inr (filled names (length names)) else Inl IndexError)"
proof -
  have start: "decode_labels (zip names (map int [0..<length names]))
      = decode_loop (drop 0 names) (zip names (map int [0..<length names])) (filled names 0)"
    by (simp add: decode_labels_def filled_def)
  show ?thesis
  proof (cases "length names \<le> 17")
    case True
    then show ?thesis unfolding start using decode_loop_fills [OF assms True, of 0] by simp
  next
    case False
    then have "17 < length names" by simp
    from decode_loop_overflows [OF assms this, of 0] False show ?thesis unfolding start by simp
  qed
qed

lemma dict_getitem_numbered_inv:
  assumes "dict_getitem (zip names (map int [0..<length names])) c = Inr k"
  shows "\<exists>i<length names. c = names ! i \<and> k = int i"
proof -
  from assms have "map_of (zip names (map int [0..<length names])) c = Some k"
    by (simp add: dict_getitem_def split: option.splits)
  then have "(c, k) \<in> set (zip names (map int [0..<length names]))" by (rule map_of_SomeD)
  then show ?thesis by (auto simp: set_zip)
qed

lemma filled_nth: "i < length names \<Longrightarrow> filled names (length names) ! i = Some (names ! i)"
  by (simp add: filled_def nth_append)

lemma filled_nth_None:
  "length names \<le> i \<Longrightarrow> i < 17 \<Longrightarrow> filled names (length names) ! i = None"
  by (simp add: filled_def nth_append)

lemma decode_label_one_hot:
  assumes "i < length names" "length names \<le> 17"
  shows "decode_label (filled names (length names)) (one_hot (length names) i) = Inr (Some (names ! i))"
proof -
  have "i < length (filled names (length names))" using assms by (simp add: length_filled)
  then show ?thesis using assms(1)
    by (simp add: decode_label_def argmax_one_hot list_getitem_nat filled_nth)
qed

lemma encode_decodes:
  assumes ci: "class_indices it = zip names (map int [0..<length names])"
    and n: "length names \<le> 17"
  shows "encode it samples = Inr b \<Longrightarrow>
    map fst b = map fst samples \<and>
    map (\<lambda>(x, y). decode_label (filled names (length names)) y) b = map (\<lambda>(x, c). Inr (Some c)) samples"
proof (induction samples arbitrary: b)
  case Nil
  then show ?case by simp
next
  case (Cons s samples)
  obtain x c where s: "s = (x, c)" by (cases s)
  from Cons.prems obtain k b' where
    k: "dict_getitem (class_indices it) c = Inr k" and b': "encode it samples = Inr b'"
    and b: "b = (x, one_hot (length (class_indices it)) (nat k)) # b'"
    by (auto simp: s split: sum.splits)
  from k obtain i where i: "i < length names" "c = names ! i" "k = int i"
    unfolding ci by (blast dest: dict_getitem_numbered_inv)
  have len: "length (class_indices it) = length names" by (simp add: ci)
  show ?case using Cons.IH [OF b'] i decode_label_one_hot [OF i(1) n]
    by (simp add: b s len)
qed

lemma first_batch_decodes:
  assumes "listdir lib dir = Inr subdirs" and "distinct subdirs"
    and "length subdirs \<le> 17"
    and "flow_from_directory lib gen dir sz n shuf = Inr it"
    and "first_batch lib it r = Inr (b, r')"
  shows "\<exists>samples. serve lib it r = Inr (samples, r') \<and> map fst b = map fst samples \<and>
     map (\<lambda>(x, y). decode_label (filled (sort subdirs) (length subdirs)) y) b
       = map (\<lambda>(x, c). Inr (Some c)) samples"
proof -
  define names where "names = sort subdirs"
  have len: "length names = length subdirs" by (simp add: names_def)
  have ci: "class_indices it = zip names (map int [0..<length names])"
    unfolding names_def by (rule flow_class_indices [OF assms(1,2,4)])
  from assms(5) obtain samples where s: "serve lib it r = Inr (samples, r')"
    and e: "encode it samples = Inr b"
    by (auto simp: first_batch_def split: sum.splits)
  from assms(3) have "length names \<le> 17" by (simp add: len)
  from encode_decodes [OF ci this e] s show ?thesis
    by (simp add: names_def)
qed

lemma decode_flow:
  assumes "listdir lib dir = Inr subdirs" and "distinct subdirs"
    and "flow_from_directory lib gen dir sz n shuf = Inr it"
  shows "decode_labels (class_indices it)
    = (if length subdirs \<le> 17 then Inr (filled (sort subdirs) (length subdirs)) else Inl IndexError)"
proof -
  have d: "distinct (sort subdirs)" using assms(2) by simp
  show ?thesis
    using decode_numbered [OF d] flow_class_indices [OF assms] by simp
qed

text \<open>
  C4. The iterator numbers the class subdirectories in alphabetical order, from 0, and
  the decoded list is the inverse of that numbering: once the decoding loop has
  completed, \<^verbatim>\<open>labels[class_indices[c]]\<close> is \<open>c\<close> for every class name \<open>c\<close> of
  \<^verbatim>\<open>class_indices\<close>, and for every sample of a batch that an iterator over the same
  directory serves, \<^verbatim>\<open>labels[np.argmax(y)]\<close> is the subdirectory the sample was loaded
  from.
\<close>

theorem labels_invert_class_indices:
  assumes "listdir lib dir = Inr subdirs" and "distinct subdirs"
    and "flow_from_directory lib gen dir sz n shuf = Inr it"
    and "decode_labels (class_indices it) = Inr ls"
  shows "map fst (class_indices it) = sort subdirs \<and>
     map snd (class_indices it) = map int [0..<length subdirs] \<and>
     (\<forall>c k. dict_getitem (class_indices it) c = Inr k \<longrightarrow> list_getitem ls k = Inr (Some c)) \<and>
     (\<forall>gen' sz' n' shuf' it' r b r'.
        flow_from_directory lib gen' dir sz' n' shuf' = Inr it' \<longrightarrow>
        first_batch lib it' r = Inr (b, r') \<longrightarrow>
        (\<exists>samples. serve lib it' r = Inr (samples, r') \<and> map fst b = map fst samples \<and>
           map (\<lambda>(x, y). decode_label ls y) b = map (\<lambda>(x, c). Inr (Some c)) samples))"
proof -
  define names where "names = sort subdirs"
  have d: "distinct names" and len: "length names = length subdirs"
    using assms(2) by (simp_all add: names_def)
  have ci: "class_indices it = zip names (map int [0..<length names])"
    unfolding names_def by (rule flow_class_indices [OF assms(1,2,3)])
  from assms(4) have n: "length subdirs \<le> 17" and ls: "ls = filled (sort subdirs) (length subdirs)"
    unfolding decode_flow [OF assms(1,2,3)] by (auto split: if_splits)
  have 1: "map fst (class_indices it) = sort subdirs" by (simp add: ci names_def)
  have 2: "map snd (class_indices it) = map int [0..<length subdirs]" by (simp add: ci len)
  have 3: "list_getitem ls k = Inr (Some c)" if "dict_getitem (class_indices it) c = Inr k" for c k
  proof -
    from that obtain i where i: "i < length names" "c = names ! i" "k = int i"
      unfolding ci by (blast dest: dict_getitem_numbered_inv)
    have l: "ls = filled names (length names)" by (simp add: ls names_def)
    have "i < length ls" using i(1) n by (simp add: l length_filled len)
    then show ?thesis using i by (simp add: list_getitem_nat l filled_nth)
  qed
  have 4: "\<exists>samples. serve lib it' r = Inr (samples, r') \<and> map fst b = map fst samples \<and>
           map (\<lambda>(x, y). decode_label ls y) b = map (\<lambda>(x, c). Inr (Some c)) samples"
    if f: "flow_from_directory lib gen' dir sz' n' shuf' = Inr it'"
      and b: "first_batch lib it' r = Inr (b, r')"
    for gen' sz' n' shuf' it' r b r'
    unfolding ls by (rule first_batch_decodes [OF assms(1,2) n f b])
  from 1 2 3 4 show ?thesis by blast
qed

theorem labels_invert_class_indices_witness:
  "listdir example_library ''flowers/train'' = Inr flower_names \<and> distinct flower_names \<and>
   flow_from_directory example_library \<lparr> preprocessing_function = False, horizontal_flip = False \<rparr>
     ''flowers/train'' (256, 256) 4 True = Inr example_batches \<and>
   decode_labels (class_indices example_batches) = Inr (map Some (sort flower_names)) \<and>
   map fst (class_indices example_batches) = sort flower_names \<and>
   dict_getitem (class_indices example_batches) ''daisy'' = Inr 6 \<and>
   list_getitem (map Some (sort flower_names)) 6 = Inr (Some ''daisy'') \<and>
   first_batch example_library example_batches 0
     = Inr ([([0], one_hot 17 15), ([0], one_hot 17 6), ([0], one_hot 17 9), ([0], one_hot 17 0)], 1) \<and>
   map (\<lambda>(x, y). decode_label (map Some (sort flower_names)) y)
       [([0], one_hot 17 15), ([0], one_hot 17 6), ([0], one_hot 17 9), ([0::real], one_hot 17 0)]
     = [Inr (Some ''tulip''), Inr (Some ''daisy''), Inr (Some ''iris''), Inr (Some ''bluebell'')]"
proof -
  have h1: "listdir example_library ''flowers/train'' = Inr flower_names"
    by (simp add: example_library_def)
  have h2: "distinct flower_names" by code_simp
  have h3: "flow_from_directory example_library
      \<lparr> preprocessing_function = False, horizontal_flip = False \<rparr>
      ''flowers/train'' (256, 256) 4 True = Inr example_batches"
    by code_simp
  have h4: "decode_labels (class_indices example_batches) = Inr (map Some (sort flower_names))"
    by code_simp
  have k: "dict_getitem (class_indices example_batches) ''daisy'' = Inr 6" by code_simp
  have b: "first_batch example_library example_batches 0
     = Inr ([([0], one_hot 17 15), ([0], one_hot 17 6), ([0], one_hot 17 9), ([0], one_hot 17 0)], 1)"
    by code_simp
  have s: "serve example_library example_batches 0
     = Inr ([([0], ''tulip''), ([0], ''daisy''), ([0], ''iris''), ([0], ''bluebell'')], 1)"
    by code_simp
  note t = labels_invert_class_indices [OF h1 h2 h3 h4]
  from t have 1: "map fst (class_indices example_batches) = sort flower_names" by blast
  from t k have 2: "list_getitem (map Some (sort flower_names)) 6 = Inr (Some ''daisy'')" by blast
  from t h3 b obtain samples where
    "serve example_library example_batches 0 = Inr (samples, 1)"
    "map (\<lambda>(x, y). decode_label (map Some (sort flower_names)) y)
       [([0], one_hot 17 15), ([0], one_hot 17 6), ([0], one_hot 17 9), ([0::real], one_hot 17 0)]
     = map (\<lambda>(x, c). Inr (Some c)) samples"
    by blast
  with s have 3: "map (\<lambda>(x, y). decode_label (map Some (sort flower_names)) y)
       [([0], one_hot 17 15), ([0], one_hot 17 6), ([0], one_hot 17 9), ([0::real], one_hot 17 0)]
     = [Inr (Some ''tulip''), Inr (Some ''daisy''), Inr (Some ''iris''), Inr (Some ''bluebell'')]"
    by simp
  from h1 h2 h3 h4 1 k 2 b 3 show ?thesis by blast
qed

text \<open>
  C9, as amended. The decoding loop writes into a list of 17 slots. Over the class
  indices of an iterator it completes if and only if every class index is below 17, that
  is, if and only if the directory has at most 17 class subdirectories, and otherwise it
  ends in \<open>IndexError\<close>. With exactly 17 classes it leaves no \<open>None\<close> in the list. With
  \<open>n < 17\<close> classes exactly the slots from \<open>n\<close> on remain \<open>None\<close>, and no lookup
  \<^verbatim>\<open>labels[np.argmax(y)]\<close> of a label that an iterator over the same directory serves
  reaches them: every such lookup decodes to a class name.
\<close>

theorem decode_labels_completes_iff:
  assumes "listdir lib dir = Inr subdirs" and "distinct subdirs"
    and "flow_from_directory lib gen dir sz n shuf = Inr it"
  shows "((\<exists>ls. decode_labels (class_indices it) = Inr ls) \<longleftrightarrow> (\<forall>(c, k)\<in>set (class_indices it). k < 17)) \<and>
     ((\<exists>ls. decode_labels (class_indices it) = Inr ls) \<longleftrightarrow> length subdirs \<le> 17) \<and>
     (17 < length subdirs \<longrightarrow> decode_labels (class_indices it) = Inl IndexError) \<and>
     (length subdirs = 17 \<longrightarrow> (\<exists>ls. decode_labels (class_indices it) = Inr ls \<and> None \<notin> set ls)) \<and>
     (length subdirs < 17 \<longrightarrow>
        (\<exists>ls. decode_labels (class_indices it) = Inr ls \<and> length ls = 17 \<and>
           (\<forall>j<17. ls ! j = None \<longleftrightarrow> length subdirs \<le> j) \<and>
           (\<forall>gen' sz' n' shuf' it' r b r'.
              flow_from_directory lib gen' dir sz' n' shuf' = Inr it' \<longrightarrow>
              first_batch lib it' r = Inr (b, r') \<longrightarrow>
              (\<forall>(x, y)\<in>set b. \<exists>c. decode_label ls y = Inr (Some c)))))"
proof -
  define names where "names = sort subdirs"
  have d: "distinct names" and len: "length names = length subdirs"
    using assms(2) by (simp_all add: names_def)
  have ci: "class_indices it = zip names (map int [0..<length names])"
    unfolding names_def by (rule flow_class_indices [OF assms])
  note dec = decode_flow [OF assms]
  have below: "(\<forall>(c, k)\<in>set (class_indices it). k < 17) \<longleftrightarrow> length subdirs \<le> 17"
  proof
    assume a: "\<forall>(c, k)\<in>set (class_indices it). k < 17"
    show "length subdirs \<le> 17"
    proof (rule ccontr)
      assume "\<not> length subdirs \<le> 17"
      then have "17 < length names" by (simp add: len)
      then have "(names ! 17, int 17) \<in> set (class_indices it)"
        unfolding ci by (force simp: set_zip)
      with a show False by auto
    qed
  next
    assume "length subdirs \<le> 17"
    then show "\<forall>(c, k)\<in>set (class_indices it). k < 17"
      unfolding ci by (auto simp: set_zip len)
  qed
  have 2: "(\<exists>ls. decode_labels (class_indices it) = Inr ls) \<longleftrightarrow> length subdirs \<le> 17"
    by (simp add: dec)
  have 3: "17 < length subdirs \<longrightarrow> decode_labels (class_indices it) = Inl IndexError"
    by (simp add: dec)
  have 4: "\<exists>ls. decode_labels (class_indices it) = Inr ls \<and> None \<notin> set ls"
    if "length subdirs = 17"
    using that by (simp add: dec filled_def)
  have 5: "\<exists>ls. decode_labels (class_indices it) = Inr ls \<and> length ls = 17 \<and>
           (\<forall>j<17. ls ! j = None \<longleftrightarrow> length subdirs \<le> j) \<and>
           (\<forall>gen' sz' n' shuf' it' r b r'.
              flow_from_directory lib gen' dir sz' n' shuf' = Inr it' \<longrightarrow>
              first_batch lib it' r = Inr (b, r') \<longrightarrow>
              (\<forall>(x, y)\<in>set b. \<exists>c. decode_label ls y = Inr (Some c)))"
    if less: "length subdirs < 17"
  proof -
    let ?ls = "filled (sort subdirs) (length subdirs)"
    have le: "length subdirs \<le> 17" using less by simp
    have a: "decode_labels (class_indices it) = Inr ?ls" using le by (simp add: dec)
    have b: "length ?ls = 17" using le by (simp add: filled_def)
    have c: "?ls ! j = None \<longleftrightarrow> length subdirs \<le> j" if "j < 17" for j
      using that le by (simp add: filled_def nth_append)
    have e: "\<exists>c. decode_label ?ls y = Inr (Some c)"
      if f: "flow_from_directory lib gen' dir sz' n' shuf' = Inr it'"
        and fb: "first_batch lib it' r = Inr (b, r')" and xy: "(x, y) \<in> set b"
      for gen' sz' n' shuf' it' r b r' x y
    proof -
      from first_batch_decodes [OF assms(1,2) le f fb] obtain samples where
        "serve lib it' r = Inr (samples, r')" and
        m: "map (\<lambda>(x, y). decode_label ?ls y) b = map (\<lambda>(x, c). Inr (Some c)) samples"
        by (elim exE conjE)
      from xy obtain i where i: "i < length b" "b ! i = (x, y)" by (auto simp: in_set_conv_nth)
      from m have "length b = length samples" by (metis length_map)
      with i have "i < length samples" by simp
      from m have "map (\<lambda>(x, y). decode_label ?ls y) b ! i = map (\<lambda>(x, c). Inr (Some c)) samples ! i"
        by simp
      then have "decode_label ?ls y = (\<lambda>(x, c). Inr (Some c)) (samples ! i)"
        using i \<open>i < length samples\<close> by simp
      then show ?thesis by (cases "samples ! i") auto
    qed
    from a b c e show ?thesis by blast
  qed
  from below 2 3 4 5 show ?thesis by blast
qed

theorem decode_labels_completes_iff_witness:
  "listdir two_flowers ''flowers/train'' = Inr [''rose'', ''daisy''] \<and>
   distinct [''rose'', ''daisy''] \<and>
   flow_from_directory two_flowers \<lparr> preprocessing_function = False, horizontal_flip = False \<rparr>
     ''flowers/train'' (256, 256) 4 True = Inr two_batches \<and>
   list_all (\<lambda>(c, k). k < 17) (class_indices two_batches) \<and>
   length [''rose'', ''daisy''] < (17::nat) \<and>
   decode_labels (class_indices two_batches)
     = Inr ([Some ''daisy'', Some ''rose''] @ replicate 15 None) \<and>
   first_batch two_flowers two_batches 0 = Inr ([([0], one_hot 2 1), ([0], one_hot 2 0)], 1) \<and>
   decode_label ([Some ''daisy'', Some ''rose''] @ replicate 15 None) (one_hot 2 1) \<noteq> Inr None"
proof -
  have h1: "listdir two_flowers ''flowers/train'' = Inr [''rose'', ''daisy'']"
    by (simp add: two_flowers_def)
  have h2: "distinct [''rose'', ''daisy'']" by simp
  have h3: "flow_from_directory two_flowers
      \<lparr> preprocessing_function = False, horizontal_flip = False \<rparr>
      ''flowers/train'' (256, 256) 4 True = Inr two_batches"
    by code_simp
  have less: "length [''rose'', ''daisy''] < (17::nat)" by simp
  have d: "decode_labels (class_indices two_batches)
     = Inr ([Some ''daisy'', Some ''rose''] @ replicate 15 None)"
    by code_simp
  have b: "first_batch two_flowers two_batches 0 = Inr ([([0], one_hot 2 1), ([0], one_hot 2 0)], 1)"
    by code_simp
  note t = decode_labels_completes_iff [OF h1 h2 h3]
  from t d have "\<forall>(c, k)\<in>set (class_indices two_batches). k < 17" by blast
  then have 1: "list_all (\<lambda>(c, k). k < 17) (class_indices two_batches)"
    by (simp add: list_all_iff)
  from t less obtain ls where ls: "decode_labels (class_indices two_batches) = Inr ls"
    and served: "\<forall>gen' sz' n' shuf' it' r b r'.
              flow_from_directory two_flowers gen' ''flowers/train'' sz' n' shuf' = Inr it' \<longrightarrow>
              first_batch two_flowers it' r = Inr (b, r') \<longrightarrow>
              (\<forall>(x, y)\<in>set b. \<exists>c. decode_label ls y = Inr (Some c))"
    by blast
  from ls d have "ls = [Some ''daisy'', Some ''rose''] @ replicate 15 None" by simp
  moreover from served h3 b
  have "\<forall>(x, y)\<in>set [([0], one_hot 2 1), ([0::real], one_hot 2 0)]. \<exists>c. decode_label ls y = Inr (Some c)"
    by blast
  ultimately have 2: "decode_label ([Some ''daisy'', Some ''rose''] @ replicate 15 None) (one_hot 2 1) \<noteq> Inr None"
    by auto
  from h1 h2 h3 1 less d b 2 show ?thesis by blast
qed

text \<open>
  With two class subdirectories fifteen slots of \<^verbatim>\<open>labels\<close> remain \<open>None\<close>, and still
  neither of the two labels that the iterator can serve decodes to \<open>None\<close>.
\<close>

theorem served_label_decodes_to_None_counterexample:
  "flow_from_directory two_flowers \<lparr> preprocessing_function = False, horizontal_flip = False \<rparr>
     ''flowers/train'' (256, 256) 4 True = Inr two_batches \<and>
   decode_labels (class_indices two_batches)
     = Inr ([Some ''daisy'', Some ''rose''] @ replicate 15 None) \<and>
   (case run [cell_generator two_flowers, cell_labels, cell_show_batch two_flowers] fresh of
      Inl e \<Rightarrow> None | Inr st \<Rightarrow> Some (titles st)) = Some [Some ''rose'', Some ''daisy''] \<and>
   \<not> (\<exists>c\<in>set [''rose'', ''daisy'']. \<exists>x y.
        encode two_batches [(x, c)] = Inr [(x, y)] \<and>
        decode_label ([Some ''daisy'', Some ''rose''] @ replicate 15 None) y = Inr None)"
proof -
  have h3: "flow_from_directory two_flowers
      \<lparr> preprocessing_function = False, horizontal_flip = False \<rparr>
      ''flowers/train'' (256, 256) 4 True = Inr two_batches"
    by code_simp
  have d: "decode_labels (class_indices two_batches)
     = Inr ([Some ''daisy'', Some ''rose''] @ replicate 15 None)"
    by code_simp
  have t: "(case run [cell_generator two_flowers, cell_labels, cell_show_batch two_flowers] fresh of
      Inl e \<Rightarrow> None | Inr st \<Rightarrow> Some (titles st)) = Some [Some ''rose'', Some ''daisy'']"
    by code_simp
  have ci: "class_indices two_batches = [(''daisy'', 0), (''rose'', 1)]"
    by (simp add: two_batches_def)
  have r: "encode two_batches [(x, ''rose'')] = Inr [(x, [0, 1])]" for x
    by (simp add: ci dict_getitem_def one_hot_def)
  have da: "encode two_batches [(x, ''daisy'')] = Inr [(x, [1, 0])]" for x
    by (simp add: ci dict_getitem_def one_hot_def)
  have lr: "decode_label ([Some ''daisy'', Some ''rose''] @ replicate 15 None) [0, 1] = Inr (Some ''rose'')"
    by code_simp
  have ld: "decode_label ([Some ''daisy'', Some ''rose''] @ replicate 15 None) [1, 0] = Inr (Some ''daisy'')"
    by code_simp
  have "\<not> (\<exists>c\<in>set [''rose'', ''daisy'']. \<exists>x y.
        encode two_batches [(x, c)] = Inr [(x, y)] \<and>
        decode_label ([Some ''daisy'', Some ''rose''] @ replicate 15 None) y = Inr None)"
    using r da lr ld by auto
  with h3 d t show ?thesis by blast
qed

subsection \<open>The base model at its sanity checks\<close>

lemma VGG19_Inr:
  assumes "VGG19 lib include_top pooling h = Inr (m, h')"
  obtains ls where "application lib include_top pooling = Inr ls"
    and "m = \<lparr> layers = [length h..<Suc (length h + length ls)], compiled = False \<rparr>"
    and "h' = h @ new_layer InputLayer (initializer lib (length h) InputLayer)
                 # map (\<lambda>(k, w). new_layer k w) ls"
  using assms by (auto simp: VGG19_def split: sum.splits)

lemma VGG19_trainable:
  assumes "VGG19 lib include_top pooling h = Inr (m, h')" and "a \<in> set (layers m)"
  shows "a < length h' \<and> trainable (h' ! a)"
proof -
  from assms(1) obtain ls where m: "m = \<lparr> layers = [length h..<Suc (length h + length ls)], compiled = False \<rparr>"
    and h': "h' = h @ new_layer InputLayer (initializer lib (length h) InputLayer)
                 # map (\<lambda>(k, w). new_layer k w) ls"
    by (rule VGG19_Inr)
  from assms(2) have a: "length h \<le> a" "a < Suc (length h + length ls)" by (auto simp: m)
  then have lt: "a < length h'" by (simp add: h')
  have "trainable (h' ! a)"
  proof (cases "a = length h")
    case True
    then show ?thesis by (simp add: h' new_layer_def)
  next
    case False
    define j where "j = a - Suc (length h)"
    from False a have j: "a = Suc (length h + j)" "j < length ls" by (simp_all add: j_def)
    have "h' ! a = (map (\<lambda>(k, w). new_layer k w) ls) ! j"
      unfolding h' j(1) by (simp add: nth_append)
    also have "\<dots> = (\<lambda>(k, w). new_layer k w) (ls ! j)" using j(2) by simp
    finally show ?thesis by (simp add: new_layer_def split: prod.split)
  qed
  with lt show ?thesis by simp
qed

lemma cell_generator_224_keeps:
  "cell_generator_224 lib st = Inr st' \<Longrightarrow> heap st' = heap st \<and> model st' = model st"
  by (auto simp: cell_generator_224_def Let_def split: sum.splits)

lemma cell_generator_preprocessed_keeps:
  "cell_generator_preprocessed lib st = Inr st' \<Longrightarrow> heap st' = heap st \<and> model st' = model st"
  by (auto simp: cell_generator_preprocessed_def Let_def split: sum.splits)

lemma cell_sanity_check_keeps:
  "cell_sanity_check lib st = Inr st' \<Longrightarrow> heap st' = heap st \<and> model st' = model st"
  by (auto simp: cell_sanity_check_def split: sum.splits)

lemma sanity_cells_keep:
  assumes "\<forall>c\<in>set cs. c = cell_generator_224 lib \<or> c = cell_sanity_check lib
      \<or> c = cell_generator_preprocessed lib"
  shows "run cs st = Inr st' \<Longrightarrow> heap st' = heap st \<and> model st' = model st"
  using assms
proof (induction cs arbitrary: st)
  case Nil
  then show ?case by simp
next
  case (Cons c cs)
  from Cons.prems(1) obtain st1 where c: "c st = Inr st1" and r: "run cs st1 = Inr st'"
    by (auto split: sum.splits)
  from Cons.prems(2) have "c = cell_generator_224 lib \<or> c = cell_sanity_check lib
      \<or> c = cell_generator_preprocessed lib" by simp
  with c have "heap st1 = heap st \<and> model st1 = model st"
    using cell_generator_224_keeps cell_sanity_check_keeps cell_generator_preprocessed_keeps
    by blast
  moreover from Cons.prems(2) have "\<forall>c\<in>set cs. c = cell_generator_224 lib \<or> c = cell_sanity_check lib
      \<or> c = cell_generator_preprocessed lib" by simp
  from Cons.IH [OF r this] have "heap st' = heap st1 \<and> model st' = model st1" .
  ultimately show ?case by simp
qed

text \<open>
  C3, as amended. The pretrained model is used first in full form (\<^verbatim>\<open>include_top=True\<close>,
  ImageNet weights) for the sanity-check predictions of steps 2 and 3, and it is not
  frozen there: whenever one of the sanity checks runs, every layer of the full model
  has \<^verbatim>\<open>trainable\<close> set, as it was constructed; the sanity check itself changes no
  layer.
\<close>

theorem full_model_stays_trainable:
  assumes "run (cell_base_model lib # cs) st0 = Inr st"
    and "\<forall>c\<in>set cs. c = cell_generator_224 lib \<or> c = cell_sanity_check lib
      \<or> c = cell_generator_preprocessed lib"
  shows "\<exists>m. model st = Some m \<and> layers m \<noteq> [] \<and>
     (\<forall>a\<in>set (layers m). a < length (heap st) \<and> trainable (heap st ! a)) \<and>
     (\<forall>st'. cell_sanity_check lib st = Inr st' \<longrightarrow> heap st' = heap st \<and> model st' = model st)"
proof -
  from assms(1) obtain st1 where b: "cell_base_model lib st0 = Inr st1" and r: "run cs st1 = Inr st"
    by (auto split: sum.splits)
  from b obtain m h where v: "VGG19 lib True None (heap st0) = Inr (m, h)"
    and st1: "st1 = st0\<lparr>heap := h, model := Some m\<rparr>"
    by (auto simp: cell_base_model_def split: sum.splits)
  from sanity_cells_keep [OF assms(2) r] have k: "heap st = h" "model st = Some m"
    by (simp_all add: st1)
  from v obtain ls where "application lib True None = Inr ls" and "m = \<lparr> layers = [length (heap st0)..<Suc (length (heap st0) + length ls)],
      compiled = False \<rparr>"
    by (auto simp: VGG19_def split: sum.splits)
  then have ne: "layers m \<noteq> []" by simp
  have t: "\<forall>a\<in>set (layers m). a < length (heap st) \<and> trainable (heap st ! a)"
    using VGG19_trainable [OF v] by (simp add: k)
  have s: "\<forall>st'. cell_sanity_check lib st = Inr st' \<longrightarrow> heap st' = heap st \<and> model st' = model st"
    using cell_sanity_check_keeps by blast
  from k(2) ne t s show ?thesis by simp
qed

theorem full_model_stays_trainable_witness:
  "run (cell_base_model example_library # [cell_generator_224 example_library]) fresh
     = Inr example_at_check \<and>
   model example_at_check = Some \<lparr> layers = [0, 1, 2, 3, 4], compiled = False \<rparr> \<and>
   list_all (\<lambda>a. trainable (heap example_at_check ! a)) [0, 1, 2, 3, 4]"
proof -
  have h1: "run (cell_base_model example_library # [cell_generator_224 example_library]) fresh
     = Inr example_at_check"
    by code_simp
  have h2: "\<forall>c\<in>set [cell_generator_224 example_library].
      c = cell_generator_224 example_library \<or> c = cell_sanity_check example_library
      \<or> c = cell_generator_preprocessed example_library"
    by simp
  have m: "model example_at_check = Some \<lparr> layers = [0, 1, 2, 3, 4], compiled = False \<rparr>"
    by (simp add: example_at_check_def fresh_def)
  from full_model_stays_trainable [OF h1 h2] m
  have "\<forall>a\<in>set [0, 1, 2, 3, 4]. trainable (heap example_at_check ! a)" by auto
  then have "list_all (\<lambda>a. trainable (heap example_at_check ! a)) [0, 1, 2, 3, 4]"
    by (simp only: list_all_iff)
  with h1 m show ?thesis by blast
qed

text \<open>
  In the example environment all five layers of the full model have \<^verbatim>\<open>trainable\<close>
  set when the first sanity check is about to predict: none is frozen.
\<close>

theorem full_model_frozen_counterexample:
  "(case run (step_1 example_library @ take 2 (step_2 example_library)) fresh of
      Inl e \<Rightarrow> None
    | Inr st \<Rightarrow> Some (map (\<lambda>a. trainable (heap st ! a))
                        (case model st of None \<Rightarrow> [] | Some m \<Rightarrow> layers m)))
   = Some [True, True, True, True, True]"
  by code_simp

subsection \<open>Freezing and training\<close>

lemma length_freeze_loop: "length (freeze_loop as h) = length h"
  by (induction as arbitrary: h) simp_all

lemma freeze_loop_nth:
  "a < length h \<Longrightarrow>
   freeze_loop as h ! a = (if a \<in> set as then (h ! a)\<lparr>trainable := False\<rparr> else h ! a)"
proof (induction as arbitrary: h)
  case Nil
  then show ?case by simp
next
  case (Cons b as)
  then have "a < length (h[b := (h ! b)\<lparr>trainable := False\<rparr>])" by simp
  from Cons.IH [OF this] Cons.prems show ?case
    by (cases "a = b") simp_all
qed

lemma cell_train_Inr:
  assumes "cell_train lib st = Inr st'"
  obtains m train val new r' where "model st = Some m" and "compiled m"
    and "optimizer lib (heap st) m train val 1234 = Inr (new, r')"
    and "st' = st\<lparr>rng := r',
           heap := map (\<lambda>a. if a \<in> set (layers m) \<and> trainable (heap st ! a)
                              then (heap st ! a)\<lparr>weights := new a\<rparr> else heap st ! a)
                      [0..<length (heap st)]\<rparr>"
  using assms
  by (auto simp: cell_train_def fit_def name_def Let_def split: sum.splits option.splits if_splits)

lemma cell_train_heap:
  assumes "cell_train lib st = Inr st'" and "model st = Some m"
  shows "length (heap st') = length (heap st)"
    and "a < length (heap st) \<Longrightarrow> a \<notin> set (layers m) \<or> \<not> trainable (heap st ! a)
           \<Longrightarrow> heap st' ! a = heap st ! a"
    and "a < length (heap st) \<Longrightarrow>
           kind (heap st' ! a) = kind (heap st ! a) \<and> trainable (heap st' ! a) = trainable (heap st ! a)"
    and "model st' = model st" "pretrained st' = pretrained st" "inputs st' = inputs st"
      "outputs st' = outputs st"
  using assms by (auto elim!: cell_train_Inr split: if_splits)

lemma step_4_built:
  assumes "run [cell_pretrained lib, cell_freeze, cell_head lib, cell_model] st0 = Inr st"
  obtains ls n k where "application lib False (Some ''max'') = Inr ls"
    and "n = length (heap st0)" and "k = Suc (n + length ls)"
    and "st = st0\<lparr>heap := built lib (heap st0) ls
                  @ [new_layer (Dense 128 Relu) (initializer lib k (Dense 128 Relu)),
                     new_layer (Dense 17 Softmax) (initializer lib (Suc k) (Dense 17 Softmax))],
              pretrained := Some \<lparr> layers = [n..<k], compiled = False \<rparr>,
              inputs := Some [n], outputs := Some [n..<k],
              preds := Some ([n..<k] @ [k, Suc k]),
              model := Some \<lparr> layers = [n..<k] @ [k, Suc k], compiled = True \<rparr>\<rparr>"
proof -
  from assms obtain st1 st2 st3 where c1: "cell_pretrained lib st0 = Inr st1"
    and c2: "cell_freeze st1 = Inr st2" and c3: "cell_head lib st2 = Inr st3"
    and c4: "cell_model st3 = Inr st"
    by (auto split: sum.splits)
  define n where "n = length (heap st0)"
  from c1 obtain ls where app: "application lib False (Some ''max'') = Inr ls"
    and st1: "st1 = st0\<lparr>heap := heap st0 @ new_layer InputLayer (initializer lib n InputLayer)
                 # map (\<lambda>(k, w). new_layer k w) ls,
          pretrained := Some \<lparr> layers = [n..<Suc (n + length ls)], compiled = False \<rparr>,
          inputs := Some (take 1 [n..<Suc (n + length ls)]),
          outputs := Some [n..<Suc (n + length ls)]\<rparr>"
    by (auto simp: cell_pretrained_def VGG19_def n_def split: sum.splits)
  define k where "k = Suc (n + length ls)"
  have nk: "n < k" by (simp add: k_def)
  then have ps: "[n..<k] = n # [Suc n..<k]" by (rule upt_conv_Cons)
  have t1: "take (Suc 0) [n..<k] = [n]" by (simp add: ps)
  have lb: "length (built lib (heap st0) ls) = k"
    by (simp add: built_def length_freeze_loop k_def n_def)
  from c2 have st2: "st2 = st1\<lparr>heap := built lib (heap st0) ls\<rparr>"
    by (simp add: cell_freeze_def name_def st1 built_def n_def)
  from c3 have st3: "st3 = st2\<lparr>heap := built lib (heap st0) ls
                  @ [new_layer (Dense 128 Relu) (initializer lib k (Dense 128 Relu)),
                     new_layer (Dense 17 Softmax) (initializer lib (Suc k) (Dense 17 Softmax))],
          preds := Some ([n..<k] @ [k, Suc k])\<rparr>"
    by (auto simp: cell_head_def name_def call_new_def st2 st1 lb simp flip: k_def)
  have pre: "prefix [n] ([n..<k] @ [k, Suc k])" by (simp add: ps)
  from c4 have "st = st3\<lparr>model := Some \<lparr> layers = [n..<k] @ [k, Suc k], compiled = True \<rparr>\<rparr>"
    using pre
    by (auto simp: cell_model_def name_def Model_def compile_def st3 st2 st1 t1 simp flip: k_def)
  then have "st = st0\<lparr>heap := built lib (heap st0) ls
                  @ [new_layer (Dense 128 Relu) (initializer lib k (Dense 128 Relu)),
                     new_layer (Dense 17 Softmax) (initializer lib (Suc k) (Dense 17 Softmax))],
              pretrained := Some \<lparr> layers = [n..<k], compiled = False \<rparr>,
              inputs := Some [n], outputs := Some [n..<k],
              preds := Some ([n..<k] @ [k, Suc k]),
              model := Some \<lparr> layers = [n..<k] @ [k, Suc k], compiled = True \<rparr>\<rparr>"
    by (simp add: st3 st2 st1 t1 flip: k_def)
  with app n_def k_def show thesis by (rule that)
qed

lemma built_props:
  shows length_built: "length (built lib h ls) = Suc (length h + length ls)"
    and built_old: "a < length h \<Longrightarrow> built lib h ls ! a = h ! a"
    and built_frozen: "length h \<le> a \<Longrightarrow> a < Suc (length h + length ls) \<Longrightarrow>
          \<not> trainable (built lib h ls ! a)"
proof -
  let ?h1 = "h @ new_layer InputLayer (initializer lib (length h) InputLayer)
          # map (\<lambda>(k, w). new_layer k w) ls"
  have l: "length ?h1 = Suc (length h + length ls)" by simp
  show "length (built lib h ls) = Suc (length h + length ls)"
    by (simp add: built_def length_freeze_loop)
  show "built lib h ls ! a = h ! a" if "a < length h"
  proof -
    from that have "a < length ?h1" by simp
    from freeze_loop_nth [OF this] that show ?thesis
      unfolding built_def by (simp add: nth_append)
  qed
  show "\<not> trainable (built lib h ls ! a)" if "length h \<le> a" "a < Suc (length h + length ls)"
  proof -
    from that have lt: "a < length ?h1" by simp
    from that have mem: "a \<in> set [length h..<Suc (length h + length ls)]"
      by (simp del: upt_Suc)
    have "built lib h ls ! a = (?h1 ! a)\<lparr>trainable := False\<rparr>"
      unfolding built_def freeze_loop_nth [OF lt] using mem by (simp only: if_True)
    then show ?thesis by simp
  qed
qed


lemma step_4_heap:
  assumes "run [cell_pretrained lib, cell_freeze, cell_head lib, cell_model] st0 = Inr st"
  obtains n k where "n = length (heap st0)" and "n < k"
    and "pretrained st = Some \<lparr> layers = [n..<k], compiled = False \<rparr>"
    and "inputs st = Some [n]" and "outputs st = Some [n..<k]"
    and "preds st = Some ([n..<k] @ [k, Suc k])"
    and "model st = Some \<lparr> layers = [n..<k] @ [k, Suc k], compiled = True \<rparr>"
    and "length (heap st) = Suc (Suc k)"
    and "\<forall>a<n. heap st ! a = heap st0 ! a"
    and "\<forall>a. n \<le> a \<and> a < k \<longrightarrow> \<not> trainable (heap st ! a)"
    and "heap st ! k = new_layer (Dense 128 Relu) (initializer lib k (Dense 128 Relu))"
    and "heap st ! Suc k = new_layer (Dense 17 Softmax) (initializer lib (Suc k) (Dense 17 Softmax))"
proof -
  from assms obtain ls n k where app: "application lib False (Some ''max'') = Inr ls"
    and n: "n = length (heap st0)" and k: "k = Suc (n + length ls)"
    and st: "st = st0\<lparr>heap := built lib (heap st0) ls
                  @ [new_layer (Dense 128 Relu) (initializer lib k (Dense 128 Relu)),
                     new_layer (Dense 17 Softmax) (initializer lib (Suc k) (Dense 17 Softmax))],
              pretrained := Some \<lparr> layers = [n..<k], compiled = False \<rparr>,
              inputs := Some [n], outputs := Some [n..<k],
              preds := Some ([n..<k] @ [k, Suc k]),
              model := Some \<lparr> layers = [n..<k] @ [k, Suc k], compiled = True \<rparr>\<rparr>"
    by (rule step_4_built)
  have lb: "length (built lib (heap st0) ls) = k" by (simp add: length_built k n)
  have 1: "n < k" by (simp add: k)
  have 2: "length (heap st) = Suc (Suc k)" by (simp add: st lb)
  have 3: "\<forall>a<n. heap st ! a = heap st0 ! a"
    using 1 by (simp add: st nth_append lb built_old n)
  have 4: "\<forall>a. n \<le> a \<and> a < k \<longrightarrow> \<not> trainable (heap st ! a)"
    using built_frozen [of "heap st0" _ ls lib] by (simp add: st nth_append lb n k)
  have 5: "heap st ! k = new_layer (Dense 128 Relu) (initializer lib k (Dense 128 Relu))"
    by (simp add: st nth_append lb)
  have 6: "heap st ! Suc k = new_layer (Dense 17 Softmax) (initializer lib (Suc k) (Dense 17 Softmax))"
    by (simp add: st nth_append lb)
  show thesis
    by (rule that [OF n 1 _ _ _ _ _ 2 3 4 5 6]) (simp_all add: st)
qed

text \<open>
  C1. When the model of step 4 has been assembled, every layer of the pretrained
  feature extractor has \<^verbatim>\<open>trainable\<close> unset, before training begins; the model consists
  of those layers and the two head layers; and the training cell changes the head layers
  only: the weights of the pretrained layers are the same before and after the call of
  \<^verbatim>\<open>fit\<close>, and so is every other layer on the heap.
\<close>

theorem training_updates_head_only:
  assumes "run [cell_pretrained lib, cell_freeze, cell_head lib, cell_model] st0 = Inr st"
  shows "\<exists>p m k. pretrained st = Some p \<and> model st = Some m \<and> compiled m \<and>
     layers m = layers p @ [k, Suc k] \<and> length (heap st) = Suc (Suc k) \<and>
     layers p \<noteq> [] \<and> k \<notin> set (layers p) \<and> Suc k \<notin> set (layers p) \<and>
     (\<forall>a\<in>set (layers p). \<not> trainable (heap st ! a)) \<and>
     (\<forall>st'. cell_train lib st = Inr st' \<longrightarrow>
        length (heap st') = length (heap st) \<and>
        (\<forall>a\<in>set (layers p). weights (heap st' ! a) = weights (heap st ! a)) \<and>
        (\<forall>a<length (heap st). a \<noteq> k \<longrightarrow> a \<noteq> Suc k \<longrightarrow> heap st' ! a = heap st ! a))"
proof -
  from assms obtain n k where nk: "n < k"
    and p: "pretrained st = Some \<lparr> layers = [n..<k], compiled = False \<rparr>"
    and m: "model st = Some \<lparr> layers = [n..<k] @ [k, Suc k], compiled = True \<rparr>"
    and len: "length (heap st) = Suc (Suc k)"
    and frozen: "\<forall>a. n \<le> a \<and> a < k \<longrightarrow> \<not> trainable (heap st ! a)"
    by (rule step_4_heap)
  let ?p = "\<lparr> layers = [n..<k], compiled = False \<rparr>"
  let ?m = "\<lparr> layers = [n..<k] @ [k, Suc k], compiled = True \<rparr>"
  have ne: "layers ?p \<noteq> []" using nk by simp
  have fr: "\<forall>a\<in>set (layers ?p). \<not> trainable (heap st ! a)" using frozen by simp
  have tr: "length (heap st') = length (heap st) \<and>
        (\<forall>a\<in>set (layers ?p). weights (heap st' ! a) = weights (heap st ! a)) \<and>
        (\<forall>a<length (heap st). a \<noteq> k \<longrightarrow> a \<noteq> Suc k \<longrightarrow> heap st' ! a = heap st ! a)"
    if t: "cell_train lib st = Inr st'" for st'
  proof -
    have same: "heap st' ! a = heap st ! a"
      if a: "a < length (heap st)" "a \<noteq> k" "a \<noteq> Suc k" for a
    proof -
      have "a \<notin> set (layers ?m) \<or> \<not> trainable (heap st ! a)"
        using a frozen by (cases "n \<le> a") auto
      from cell_train_heap(2) [OF t m a(1) this] show ?thesis .
    qed
    have "weights (heap st' ! a) = weights (heap st ! a)" if "a \<in> set (layers ?p)" for a
      using that same [of a] len by simp
    with same cell_train_heap(1) [OF t m] show ?thesis by blast
  qed
  have "pretrained st = Some ?p \<and> model st = Some ?m \<and> compiled ?m \<and>
     layers ?m = layers ?p @ [k, Suc k] \<and> length (heap st) = Suc (Suc k) \<and>
     layers ?p \<noteq> [] \<and> k \<notin> set (layers ?p) \<and> Suc k \<notin> set (layers ?p) \<and>
     (\<forall>a\<in>set (layers ?p). \<not> trainable (heap st ! a)) \<and>
     (\<forall>st'. cell_train lib st = Inr st' \<longrightarrow>
        length (heap st') = length (heap st) \<and>
        (\<forall>a\<in>set (layers ?p). weights (heap st' ! a) = weights (heap st ! a)) \<and>
        (\<forall>a<length (heap st). a \<noteq> k \<longrightarrow> a \<noteq> Suc k \<longrightarrow> heap st' ! a = heap st ! a))"
    using p m len ne fr tr by simp
  then show ?thesis by blast
qed

theorem training_updates_head_only_witness:
  "run [cell_pretrained example_library, cell_freeze, cell_head example_library, cell_model] fresh
     = Inr example_built \<and>
   cell_train example_library example_built = Inr example_trained \<and>
   pretrained example_built = Some \<lparr> layers = [0, 1, 2, 3], compiled = False \<rparr> \<and>
   list_all (\<lambda>a. \<not> trainable (heap example_built ! a)) [0, 1, 2, 3] \<and>
   list_all (\<lambda>a. weights (heap example_trained ! a) = weights (heap example_built ! a)) [0, 1, 2, 3] \<and>
   map weights (heap example_built) = [0, 1, 0, 0, 0, 0] \<and>
   map weights (heap example_trained) = [0, 1, 0, 0, 7, 7]"
proof -
  have h: "run [cell_pretrained example_library, cell_freeze, cell_head example_library, cell_model] fresh
     = Inr example_built"
    by code_simp
  have t: "cell_train example_library example_built = Inr example_trained" by code_simp
  have p: "pretrained example_built = Some \<lparr> layers = [0, 1, 2, 3], compiled = False \<rparr>"
    by (simp add: example_built_def fresh_def)
  from training_updates_head_only [OF h] p t
  have "(\<forall>a\<in>set [0, 1, 2, 3]. \<not> trainable (heap example_built ! a)) \<and>
    (\<forall>a\<in>set [0, 1, 2, 3]. weights (heap example_trained ! a) = weights (heap example_built ! a))"
    by auto
  then have f: "list_all (\<lambda>a. \<not> trainable (heap example_built ! a)) [0, 1, 2, 3]"
    and w: "list_all (\<lambda>a. weights (heap example_trained ! a) = weights (heap example_built ! a)) [0, 1, 2, 3]"
    by (simp_all only: list_all_iff, blast+)
  have b: "map weights (heap example_built) = [0, 1, 0, 0, 0, 0]"
    by (simp add: example_built_def fresh_def)
  have a: "map weights (heap example_trained) = [0, 1, 0, 0, 7, 7]"
    by (simp add: example_trained_def)
  from h t p f w b a show ?thesis by blast
qed

subsection \<open>The regularized model\<close>

lemma cell_head_dropout_Inr:
  assumes "cell_head_dropout lib st = Inr st'"
    and "outputs st = Some out" and "inputs st = Some [n]" and "prefix [n] out"
    and "k = length (heap st)"
  shows "st' = st\<lparr>heap := heap st
                @ [new_layer (Dense 128 Relu) (initializer lib k (Dense 128 Relu)),
                   new_layer (Dropout (3 / 10)) (initializer lib (Suc k) (Dropout (3 / 10))),
                   new_layer (Dense 17 Softmax) (initializer lib (Suc (Suc k)) (Dense 17 Softmax))],
            preds := Some (out @ [k, Suc k, Suc (Suc k)]),
            model := Some \<lparr> layers = out @ [k, Suc k, Suc (Suc k)], compiled = True \<rparr>\<rparr>"
proof -
  from assms(1,2,3,4) show ?thesis unfolding assms(5)
    by (simp add: cell_head_dropout_def name_def call_new_def Model_def compile_def)
qed

lemma run_append:
  "run (cs @ cs') st = (case run cs st of Inl e \<Rightarrow> Inl e | Inr st' \<Rightarrow> run cs' st')"
  by (induction cs arbitrary: st) (simp_all split: sum.splits)

lemma run_single: "run [c] st = c st"
  by (simp split: sum.splits)

lemma tensors_kept:
  shows "cell_freeze st = Inr st' \<Longrightarrow> inputs st' = inputs st \<and> outputs st' = outputs st"
    and "cell_head lib st = Inr st' \<Longrightarrow> inputs st' = inputs st \<and> outputs st' = outputs st"
    and "cell_model st = Inr st' \<Longrightarrow> inputs st' = inputs st \<and> outputs st' = outputs st"
    and "cell_train lib st = Inr st' \<Longrightarrow> inputs st' = inputs st \<and> outputs st' = outputs st"
    and "cell_head_dropout lib st = Inr st' \<Longrightarrow> inputs st' = inputs st \<and> outputs st' = outputs st"
  by (auto simp: cell_freeze_def cell_head_def cell_model_def cell_train_def
      cell_head_dropout_def call_new_def Let_def split: sum.splits prod.splits)

lemma step_5_built:
  assumes b: "run [cell_pretrained lib, cell_freeze, cell_head lib, cell_model] st0 = Inr st"
    and t: "cell_train lib st = Inr st4" and d: "cell_head_dropout lib st4 = Inr st5"
  obtains n k j where "n < k" and "j = Suc (Suc k)"
    and "pretrained st4 = Some \<lparr> layers = [n..<k], compiled = False \<rparr>"
    and "model st4 = Some \<lparr> layers = [n..<k] @ [k, Suc k], compiled = True \<rparr>"
    and "outputs st4 = Some [n..<k]"
    and "length (heap st4) = j"
    and "\<forall>a. n \<le> a \<and> a < k \<longrightarrow> \<not> trainable (heap st4 ! a)"
    and "st5 = st4\<lparr>heap := heap st4
                @ [new_layer (Dense 128 Relu) (initializer lib j (Dense 128 Relu)),
                   new_layer (Dropout (3 / 10)) (initializer lib (Suc j) (Dropout (3 / 10))),
                   new_layer (Dense 17 Softmax) (initializer lib (Suc (Suc j)) (Dense 17 Softmax))],
            preds := Some ([n..<k] @ [j, Suc j, Suc (Suc j)]),
            model := Some \<lparr> layers = [n..<k] @ [j, Suc j, Suc (Suc j)], compiled = True \<rparr>\<rparr>"
proof -
  from b obtain n k where nk: "n < k"
    and p: "pretrained st = Some \<lparr> layers = [n..<k], compiled = False \<rparr>"
    and i: "inputs st = Some [n]" and out: "outputs st = Some [n..<k]"
    and m: "model st = Some \<lparr> layers = [n..<k] @ [k, Suc k], compiled = True \<rparr>"
    and len: "length (heap st) = Suc (Suc k)"
    and frozen: "\<forall>a. n \<le> a \<and> a < k \<longrightarrow> \<not> trainable (heap st ! a)"
    by (rule step_4_heap)
  define j where "j = Suc (Suc k)"
  note tr = cell_train_heap [OF t m]
  have len4: "length (heap st4) = j" using tr(1) len by (simp add: j_def)
  have p4: "pretrained st4 = Some \<lparr> layers = [n..<k], compiled = False \<rparr>"
    and m4: "model st4 = Some \<lparr> layers = [n..<k] @ [k, Suc k], compiled = True \<rparr>"
    and i4: "inputs st4 = Some [n]" and out4: "outputs st4 = Some [n..<k]"
    using tr(4-7) p m i out by simp_all
  have fr4: "\<forall>a. n \<le> a \<and> a < k \<longrightarrow> \<not> trainable (heap st4 ! a)"
    using tr(3) frozen len by simp
  have pre: "prefix [n] [n..<k]" using nk by (simp add: upt_conv_Cons)
  have st5: "st5 = st4\<lparr>heap := heap st4
                @ [new_layer (Dense 128 Relu) (initializer lib j (Dense 128 Relu)),
                   new_layer (Dropout (3 / 10)) (initializer lib (Suc j) (Dropout (3 / 10))),
                   new_layer (Dense 17 Softmax) (initializer lib (Suc (Suc j)) (Dense 17 Softmax))],
            preds := Some ([n..<k] @ [j, Suc j, Suc (Suc j)]),
            model := Some \<lparr> layers = [n..<k] @ [j, Suc j, Suc (Suc j)], compiled = True \<rparr>\<rparr>"
    by (rule cell_head_dropout_Inr [OF d out4 i4 pre]) (simp add: len4)
  from nk j_def p4 m4 out4 len4 fr4 st5 show thesis by (rule that)
qed

text \<open>
  C10. The model of step 5 is built on the same \<^verbatim>\<open>inputs\<close> and \<^verbatim>\<open>outputs\<close>, the
  tensors taken from \<^verbatim>\<open>pretrained\<close> before its layers were frozen: its
  extractor layers are the very layer objects of \<^verbatim>\<open>pretrained\<close>, unchanged by the cell
  and still frozen without being frozen again. Its three head layers are new objects
  with initial weights. The head layers of step 4 keep their trained weights but belong
  to no layer of the new model, and training the new model leaves them and the extractor
  as they are.
\<close>

theorem dropout_model_reuses_extractor:
  assumes "run (step_4 lib) st0 = Inr st4" and "cell_head_dropout lib st4 = Inr st5"
  shows "\<exists>p m4 m5 k j. pretrained st4 = Some p \<and> pretrained st5 = Some p \<and>
     model st4 = Some m4 \<and> model st5 = Some m5 \<and> compiled m5 \<and>
     layers m4 = layers p @ [k, Suc k] \<and> j = Suc (Suc k) \<and>
     layers m5 = layers p @ [j, Suc j, Suc (Suc j)] \<and>
     length (heap st4) = j \<and> length (heap st5) = Suc (Suc (Suc j)) \<and>
     k \<notin> set (layers m5) \<and> Suc k \<notin> set (layers m5) \<and>
     (\<forall>a\<in>set (layers p). \<not> trainable (heap st5 ! a) \<and> heap st5 ! a = heap st4 ! a) \<and>
     heap st5 ! k = heap st4 ! k \<and> heap st5 ! Suc k = heap st4 ! Suc k \<and>
     heap st5 ! j = new_layer (Dense 128 Relu) (initializer lib j (Dense 128 Relu)) \<and>
     heap st5 ! Suc j = new_layer (Dropout (3 / 10)) (initializer lib (Suc j) (Dropout (3 / 10))) \<and>
     heap st5 ! Suc (Suc j)
       = new_layer (Dense 17 Softmax) (initializer lib (Suc (Suc j)) (Dense 17 Softmax)) \<and>
     (\<forall>st6. cell_train lib st5 = Inr st6 \<longrightarrow>
        heap st6 ! k = heap st4 ! k \<and> heap st6 ! Suc k = heap st4 ! Suc k \<and>
        (\<forall>a\<in>set (layers p). heap st6 ! a = heap st4 ! a)) \<and>
     (\<forall>st1. cell_pretrained lib st0 = Inr st1 \<longrightarrow>
        inputs st5 = inputs st1 \<and> outputs st5 = outputs st1 \<and> outputs st5 = Some (layers p))"
proof -
  have "step_4 lib = [cell_pretrained lib, cell_freeze, cell_head lib, cell_model] @ [cell_train lib]"
    by (simp add: step_4_def)
  with assms(1) obtain st where b: "run [cell_pretrained lib, cell_freeze, cell_head lib, cell_model] st0 = Inr st"
    and t: "cell_train lib st = Inr st4"
    by (simp only: run_append run_single split: sum.splits) blast
  from b t assms(2) obtain n k j where nk: "n < k" and j: "j = Suc (Suc k)"
    and p4: "pretrained st4 = Some \<lparr> layers = [n..<k], compiled = False \<rparr>"
    and m4: "model st4 = Some \<lparr> layers = [n..<k] @ [k, Suc k], compiled = True \<rparr>"
    and out4: "outputs st4 = Some [n..<k]"
    and len4: "length (heap st4) = j"
    and fr4: "\<forall>a. n \<le> a \<and> a < k \<longrightarrow> \<not> trainable (heap st4 ! a)"
    and st5: "st5 = st4\<lparr>heap := heap st4
                @ [new_layer (Dense 128 Relu) (initializer lib j (Dense 128 Relu)),
                   new_layer (Dropout (3 / 10)) (initializer lib (Suc j) (Dropout (3 / 10))),
                   new_layer (Dense 17 Softmax) (initializer lib (Suc (Suc j)) (Dense 17 Softmax))],
            preds := Some ([n..<k] @ [j, Suc j, Suc (Suc j)]),
            model := Some \<lparr> layers = [n..<k] @ [j, Suc j, Suc (Suc j)], compiled = True \<rparr>\<rparr>"
    by (rule step_5_built)
  let ?p = "\<lparr> layers = [n..<k], compiled = False \<rparr>"
  let ?m4 = "\<lparr> layers = [n..<k] @ [k, Suc k], compiled = True \<rparr>"
  let ?m5 = "\<lparr> layers = [n..<k] @ [j, Suc j, Suc (Suc j)], compiled = True \<rparr>"
  have m5: "model st5 = Some ?m5" and p5: "pretrained st5 = Some ?p"
    by (simp_all add: st5 p4)
  have len5: "length (heap st5) = Suc (Suc (Suc j))" by (simp add: st5 len4)
  have old: "heap st5 ! a = heap st4 ! a" if "a < j" for a
    using that by (simp add: st5 nth_append len4)
  have n2: "heap st5 ! j = new_layer (Dense 128 Relu) (initializer lib j (Dense 128 Relu))"
    by (simp add: st5 nth_append len4)
  have n3: "heap st5 ! Suc j = new_layer (Dropout (3 / 10)) (initializer lib (Suc j) (Dropout (3 / 10)))"
    by (simp add: st5 nth_append len4)
  have n4: "heap st5 ! Suc (Suc j)
      = new_layer (Dense 17 Softmax) (initializer lib (Suc (Suc j)) (Dense 17 Softmax))"
    by (simp add: st5 nth_append len4)
  have kj: "k < j" "Suc k < j" by (simp_all add: j)
  have fr5: "\<forall>a\<in>set (layers ?p). \<not> trainable (heap st5 ! a) \<and> heap st5 ! a = heap st4 ! a"
    using old fr4 kj by simp
  have notin: "k \<notin> set (layers ?m5)" "Suc k \<notin> set (layers ?m5)" using kj by simp_all
  have again: "heap st6 ! k = heap st4 ! k \<and> heap st6 ! Suc k = heap st4 ! Suc k \<and>
        (\<forall>a\<in>set (layers ?p). heap st6 ! a = heap st4 ! a)"
    if t6: "cell_train lib st5 = Inr st6" for st6
  proof -
    note tr6 = cell_train_heap(2) [OF t6 m5]
    have a: "heap st6 ! k = heap st5 ! k"
      by (rule tr6) (use kj notin in \<open>simp_all add: len5\<close>)
    have b: "heap st6 ! Suc k = heap st5 ! Suc k"
      by (rule tr6) (use kj notin in \<open>simp_all add: len5\<close>)
    have c: "heap st6 ! a = heap st5 ! a" if "a \<in> set (layers ?p)" for a
    proof (rule tr6)
      from that kj show "a < length (heap st5)" by (simp add: len5)
      from bspec [OF fr5 that]
      show "a \<notin> set (layers ?m5) \<or> \<not> trainable (heap st5 ! a)" by blast
    qed
    from a b c old [OF kj(1)] old [OF kj(2)] fr5 show ?thesis by simp
  qed
  have captured: "inputs st5 = inputs st1 \<and> outputs st5 = outputs st1 \<and>
        outputs st5 = Some (layers ?p)"
    if c1: "cell_pretrained lib st0 = Inr st1" for st1
  proof -
    from assms(1) c1 obtain st2 st3 st3' where c2: "cell_freeze st1 = Inr st2"
      and c3: "cell_head lib st2 = Inr st3" and c4: "cell_model st3 = Inr st3'"
      and c5: "cell_train lib st3' = Inr st4"
      by (auto simp: step_4_def split: sum.splits)
    from tensors_kept(1) [OF c2] tensors_kept(2) [OF c3] tensors_kept(3) [OF c4]
      tensors_kept(4) [OF c5] tensors_kept(5) [OF assms(2)]
    have "inputs st5 = inputs st1 \<and> outputs st5 = outputs st1" by simp
    moreover have "outputs st5 = Some (layers ?p)" by (simp add: st5 out4)
    ultimately show ?thesis by simp
  qed
  have "pretrained st4 = Some ?p \<and> pretrained st5 = Some ?p \<and>
     model st4 = Some ?m4 \<and> model st5 = Some ?m5 \<and> compiled ?m5 \<and>
     layers ?m4 = layers ?p @ [k, Suc k] \<and> j = Suc (Suc k) \<and>
     layers ?m5 = layers ?p @ [j, Suc j, Suc (Suc j)] \<and>
     length (heap st4) = j \<and> length (heap st5) = Suc (Suc (Suc j)) \<and>
     k \<notin> set (layers ?m5) \<and> Suc k \<notin> set (layers ?m5) \<and>
     (\<forall>a\<in>set (layers ?p). \<not> trainable (heap st5 ! a) \<and> heap st5 ! a = heap st4 ! a) \<and>
     heap st5 ! k = heap st4 ! k \<and> heap st5 ! Suc k = heap st4 ! Suc k \<and>
     heap st5 ! j = new_layer (Dense 128 Relu) (initializer lib j (Dense 128 Relu)) \<and>
     heap st5 ! Suc j = new_layer (Dropout (3 / 10)) (initializer lib (Suc j) (Dropout (3 / 10))) \<and>
     heap st5 ! Suc (Suc j)
       = new_layer (Dense 17 Softmax) (initializer lib (Suc (Suc j)) (Dense 17 Softmax)) \<and>
     (\<forall>st6. cell_train lib st5 = Inr st6 \<longrightarrow>
        heap st6 ! k = heap st4 ! k \<and> heap st6 ! Suc k = heap st4 ! Suc k \<and>
        (\<forall>a\<in>set (layers ?p). heap st6 ! a = heap st4 ! a)) \<and>
     (\<forall>st1. cell_pretrained lib st0 = Inr st1 \<longrightarrow>
        inputs st5 = inputs st1 \<and> outputs st5 = outputs st1 \<and> outputs st5 = Some (layers ?p))"
    by (intro conjI allI impI p4 p5 m4 m5 len4 len5 fr5 old [OF kj(1)] old [OF kj(2)] n2 n3 n4
        notin j again captured) simp_all
  then show ?thesis by blast
qed

theorem dropout_model_reuses_extractor_witness:
  "run (step_4 example_library) fresh = Inr example_trained \<and>
   cell_head_dropout example_library example_trained = Inr example_dropout \<and>
   pretrained example_dropout = Some \<lparr> layers = [0, 1, 2, 3], compiled = False \<rparr> \<and>
   model example_dropout = Some \<lparr> layers = [0, 1, 2, 3, 6, 7, 8], compiled = True \<rparr> \<and>
   list_all (\<lambda>a. \<not> trainable (heap example_dropout ! a)) [0, 1, 2, 3] \<and>
   map weights (heap example_dropout) = [0, 1, 0, 0, 7, 7, 0, 0, 0]"
proof -
  have h: "run (step_4 example_library) fresh = Inr example_trained" by code_simp
  have d: "cell_head_dropout example_library example_trained = Inr example_dropout" by code_simp
  have p: "pretrained example_dropout = Some \<lparr> layers = [0, 1, 2, 3], compiled = False \<rparr>"
    by (simp add: example_dropout_def example_trained_def example_built_def fresh_def)
  have m: "model example_dropout = Some \<lparr> layers = [0, 1, 2, 3, 6, 7, 8], compiled = True \<rparr>"
    by (simp add: example_dropout_def)
  from dropout_model_reuses_extractor [OF h d] p
  have "\<forall>a\<in>set [0, 1, 2, 3]. \<not> trainable (heap example_dropout ! a)" by auto
  then have f: "list_all (\<lambda>a. \<not> trainable (heap example_dropout ! a)) [0, 1, 2, 3]"
    by (simp only: list_all_iff)
  have w: "map weights (heap example_dropout) = [0, 1, 0, 0, 7, 7, 0, 0, 0]"
    by (simp add: example_dropout_def example_trained_def)
  from h d p m f w show ?thesis by blast
qed

subsection \<open>Exceptions\<close>

lemma flow_from_directory_Inl:
  "listdir lib dir = Inl e \<Longrightarrow> flow_from_directory lib gen dir sz n shuf = Inl e"
  by (simp add: flow_from_directory_def)

lemma first_batch_Inl: "serve lib it r = Inl e \<Longrightarrow> first_batch lib it r = Inl e"
  by (simp add: first_batch_def)

lemma show_runs_listdir_Inl:
  "listdir lib ''flowers/train'' = Inl e \<Longrightarrow> show_runs lib gen i (Suc k) st = Inl e"
  by (simp add: flow_from_directory_Inl)

lemma show_runs_serve_Inl:
  "flow_from_directory lib gen ''flowers/train'' (256, 256) 1 False = Inr it \<Longrightarrow>
   serve lib it (rng st) = Inl e \<Longrightarrow> show_runs lib gen i (Suc k) st = Inl e"
  by (simp add: first_batch_Inl)

lemma cell_show_flips_unfold:
  "generator st = Some gen \<Longrightarrow>
   cell_show_flips lib st = show_runs lib gen 0 (Suc 4) (st\<lparr>titles := []\<rparr>)"
  by (simp add: cell_show_flips_def name_def del: show_runs.simps)

lemma run_raises: "run cs st = Inr st' \<Longrightarrow> c st' = Inl e \<Longrightarrow> run (cs @ c # cs') st = Inl e"
  by (simp add: run_append)

text \<open>
  C8. No cell handles an exception. Whatever exception a call into the library or the
  file system raises (scanning a directory, loading VGG19, loading a batch, training)
  ends the cell that made the call with that same exception, and an exception that ends
  a cell ends the run of the notebook with it. Training in particular is called once,
  on batches of 32: when it raises, the cell raises, whatever a smaller batch size would
  have done.
\<close>

theorem library_exceptions_propagate:
  "(listdir lib ''flowers/train'' = Inl e \<longrightarrow>
      cell_generator lib st = Inl e \<and> cell_generator_224 lib st = Inl e \<and>
      cell_generator_preprocessed lib st = Inl e \<and> cell_train lib st = Inl e \<and>
      cell_generator_flip lib st = Inl e \<and> show_runs lib gen i (Suc k) st = Inl e) \<and>
   (listdir lib ''flowers/train'' = Inr subdirs \<longrightarrow> listdir lib ''flowers/val'' = Inl e \<longrightarrow>
      cell_train lib st = Inl e) \<and>
   (application lib True None = Inl e \<longrightarrow> cell_base_model lib st = Inl e) \<and>
   (application lib False (Some ''max'') = Inl e \<longrightarrow> cell_pretrained lib st = Inl e) \<and>
   (batches st = Some it \<longrightarrow> serve lib it (rng st) = Inl e \<longrightarrow>
      cell_show_batch lib st = Inl e \<and> cell_sanity_check lib st = Inl e) \<and>
   (flow_from_directory lib gen ''flowers/train'' (256, 256) 1 False = Inr it \<longrightarrow>
      serve lib it (rng st) = Inl e \<longrightarrow> show_runs lib gen i (Suc k) st = Inl e) \<and>
   (generator st = Some gen \<longrightarrow> listdir lib ''flowers/train'' = Inl e \<longrightarrow>
      cell_show_flips lib st = Inl e) \<and>
   (generator st = Some gen \<longrightarrow>
      flow_from_directory lib gen ''flowers/train'' (256, 256) 1 False = Inr it \<longrightarrow>
      serve lib it (rng st) = Inl e \<longrightarrow> cell_show_flips lib st = Inl e) \<and>
   (flow_from_directory lib \<lparr> preprocessing_function = True, horizontal_flip = False \<rparr>
        ''flowers/train'' (224, 224) 32 True = Inr train \<longrightarrow>
    flow_from_directory lib \<lparr> preprocessing_function = True, horizontal_flip = False \<rparr>
        ''flowers/val'' (224, 224) 32 True = Inr val \<longrightarrow>
    model st = Some m \<longrightarrow> compiled m \<longrightarrow>
    optimizer lib (heap st) m train val 1234 = Inl e \<longrightarrow> cell_train lib st = Inl e) \<and>
   (run cs st = Inr st' \<longrightarrow> c st' = Inl e \<longrightarrow> run (cs @ c # cs') st = Inl e)"
proof -
  have 1: "cell_generator lib st = Inl e \<and> cell_generator_224 lib st = Inl e \<and>
      cell_generator_preprocessed lib st = Inl e \<and> cell_train lib st = Inl e \<and>
      cell_generator_flip lib st = Inl e \<and> show_runs lib gen i (Suc k) st = Inl e"
    if "listdir lib ''flowers/train'' = Inl e"
    using flow_from_directory_Inl [OF that]
    by (simp add: cell_generator_def cell_generator_224_def cell_generator_preprocessed_def
        cell_train_def cell_generator_flip_def)
  have 2: "cell_train lib st = Inl e"
    if "listdir lib ''flowers/train'' = Inr subdirs" "listdir lib ''flowers/val'' = Inl e"
    using that by (simp add: cell_train_def flow_from_directory_def)
  have 3: "cell_base_model lib st = Inl e" if "application lib True None = Inl e"
    using that by (simp add: cell_base_model_def VGG19_def)
  have 4: "cell_pretrained lib st = Inl e" if "application lib False (Some ''max'') = Inl e"
    using that by (simp add: cell_pretrained_def VGG19_def)
  have 5: "cell_show_batch lib st = Inl e \<and> cell_sanity_check lib st = Inl e"
    if "batches st = Some it" "serve lib it (rng st) = Inl e"
    using that(1) first_batch_Inl [OF that(2)]
    by (simp add: cell_show_batch_def cell_sanity_check_def name_def)
  have 6: "show_runs lib gen i (Suc k) st = Inl e"
    if "flow_from_directory lib gen ''flowers/train'' (256, 256) 1 False = Inr it"
      "serve lib it (rng st) = Inl e"
    using that(1) first_batch_Inl [OF that(2)] by simp
  have 7: "cell_train lib st = Inl e"
    if "flow_from_directory lib \<lparr> preprocessing_function = True, horizontal_flip = False \<rparr>
        ''flowers/train'' (224, 224) 32 True = Inr train"
      "flow_from_directory lib \<lparr> preprocessing_function = True, horizontal_flip = False \<rparr>
        ''flowers/val'' (224, 224) 32 True = Inr val"
      "model st = Some m" "compiled m" "optimizer lib (heap st) m train val 1234 = Inl e"
    using that by (simp add: cell_train_def name_def fit_def)
  have 8: "run (cs @ c # cs') st = Inl e" if "run cs st = Inr st'" "c st' = Inl e"
    using that by (rule run_raises)
  have 9: "cell_show_flips lib st = Inl e"
    if "generator st = Some gen" "listdir lib ''flowers/train'' = Inl e"
    unfolding cell_show_flips_unfold [OF that(1)] using that(2) by (rule show_runs_listdir_Inl)
  have 10: "cell_show_flips lib st = Inl e"
    if "generator st = Some gen"
      "flow_from_directory lib gen ''flowers/train'' (256, 256) 1 False = Inr it"
      "serve lib it (rng st) = Inl e"
    unfolding cell_show_flips_unfold [OF that(1)] using that(2)
    by (rule show_runs_serve_Inl) (simp add: that(3))
  show ?thesis
    apply (intro conjI impI)
                  apply (simp_all only: 1 2 3 4 5 6 7 8 9 10)
    done
qed

theorem library_exceptions_propagate_witness:
  "flow_from_directory oom_library \<lparr> preprocessing_function = True, horizontal_flip = False \<rparr>
      ''flowers/train'' (224, 224) 32 True
     = Inr (example_batches \<lparr> target_size := (224, 224), batch_size := 32,
              image_data_generator := \<lparr> preprocessing_function = True, horizontal_flip = False \<rparr> \<rparr>) \<and>
   model example_built = Some \<lparr> layers = [0, 1, 2, 3, 4, 5], compiled = True \<rparr> \<and>
   optimizer oom_library (heap example_built) \<lparr> layers = [0, 1, 2, 3, 4, 5], compiled = True \<rparr>
      (example_batches \<lparr> target_size := (224, 224), batch_size := 32,
              image_data_generator := \<lparr> preprocessing_function = True, horizontal_flip = False \<rparr> \<rparr>)
      (example_batches \<lparr> directory := ''flowers/val'', target_size := (224, 224), batch_size := 32,
              image_data_generator := \<lparr> preprocessing_function = True, horizontal_flip = False \<rparr> \<rparr>)
      1234 = Inl ResourceExhaustedError \<and>
   cell_train oom_library example_built = Inl ResourceExhaustedError \<and>
   run [cell_pretrained oom_library, cell_freeze, cell_head oom_library, cell_model] fresh
     = Inr example_built \<and>
   run ([cell_pretrained oom_library, cell_freeze, cell_head oom_library, cell_model]
        @ cell_train oom_library # step_5 oom_library) fresh = Inl ResourceExhaustedError \<and>
   notebook oom_library = Inl ResourceExhaustedError"
proof -
  let ?gen = "\<lparr> preprocessing_function = True, horizontal_flip = False \<rparr>"
  let ?train = "example_batches \<lparr> target_size := (224, 224), batch_size := 32,
              image_data_generator := ?gen \<rparr>"
  let ?val = "example_batches \<lparr> directory := ''flowers/val'', target_size := (224, 224),
              batch_size := 32, image_data_generator := ?gen \<rparr>"
  let ?m = "\<lparr> layers = [0, 1, 2, 3, 4, 5], compiled = True \<rparr>"
  have f1: "flow_from_directory oom_library ?gen ''flowers/train'' (224, 224) 32 True = Inr ?train"
    by code_simp
  have f2: "flow_from_directory oom_library ?gen ''flowers/val'' (224, 224) 32 True = Inr ?val"
    by code_simp
  have m: "model example_built = Some ?m" by (simp add: example_built_def fresh_def)
  have c: "compiled ?m" by simp
  have o: "optimizer oom_library (heap example_built) ?m ?train ?val 1234 = Inl ResourceExhaustedError"
    by (simp add: oom_library_def example_batches_def)
  have r: "run [cell_pretrained oom_library, cell_freeze, cell_head oom_library, cell_model] fresh
     = Inr example_built"
    by code_simp
  have n: "notebook oom_library = Inl ResourceExhaustedError" by code_simp
  note t = library_exceptions_propagate [where lib = oom_library and st = example_built
      and train = ?train and val = ?val and m = ?m and e = ResourceExhaustedError
      and cs = "[cell_pretrained oom_library, cell_freeze, cell_head oom_library, cell_model]"
      and c = "cell_train oom_library" and st' = example_built and cs' = "step_5 oom_library"]
  from t f1 f2 m c o have ct: "cell_train oom_library example_built = Inl ResourceExhaustedError"
    by blast
  from library_exceptions_propagate [where lib = oom_library and st = fresh
      and e = ResourceExhaustedError
      and cs = "[cell_pretrained oom_library, cell_freeze, cell_head oom_library, cell_model]"
      and c = "cell_train oom_library" and st' = example_built and cs' = "step_5 oom_library"]
    r ct
  have rr: "run ([cell_pretrained oom_library, cell_freeze, cell_head oom_library, cell_model]
        @ cell_train oom_library # step_5 oom_library) fresh = Inl ResourceExhaustedError"
    by blast
  from f1 m o ct r rr n show ?thesis by blast
qed

end
